theory Spec2Isabelle
  imports Main "HOL-Library.Multiset"
begin

section \<open>Data model (src/lib/types.ts)\<close>

text \<open>
  Identifiers issued by DoorFlow are JavaScript numbers; they are modelled as \<open>int\<close>.
  A field typed \<open>T | null | undefined\<close> is a \<open>T option\<close> with \<open>None\<close> for both
  \<open>null\<close> and \<open>undefined\<close> (the code never tells them apart).
\<close>

datatype MembershipType = Standard | Premium

record CrmTeam =
  team_id :: string
  team_name :: string
  team_description :: "string option"
  doorflowGroupId :: "int option"
  team_createdAt :: string
  team_updatedAt :: string

record CrmMember =
  member_id :: string
  firstName :: string
  lastName :: string
  email :: string
  phone :: "string option"
  department :: "string option"
  jobTitle :: "string option"
  notes_m :: "string option"
  organisationId :: "int option"
  membershipType :: MembershipType
  teamIds :: "string list"
  doorflowPersonId :: "int option"
  createdAt :: string
  updatedAt :: string

text \<open>
  The result of one run. Each bucket is an array that the run only ever appends to.
\<close>

record SyncResult =
  matched :: "(CrmMember \<times> int) list"
  created :: "(CrmMember \<times> int) list"
  unmatched :: "CrmMember list"
  errors :: "(CrmMember \<times> string) list"

section \<open>The DoorFlow people API as seen by the sync route\<close>

text \<open>
  \<open>tryMatchMember\<close> reads only \<open>id\<close> and \<open>email\<close> of a remote person
  (its parameter type is \<open>{ id: number; email?: string | null }\<close>).
\<close>

record Person =
  person_id :: int
  person_email :: "string option"

text \<open>
  The \<open>personInput\<close> object literal handed to \<open>createPerson\<close> and \<open>updatePerson\<close>;
  a property that is absent, \<open>null\<close> or \<open>undefined\<close> is \<open>None\<close>.
\<close>

record PersonInput =
  in_firstName :: "string option"
  in_lastName :: "string option"
  in_email :: "string option"
  in_telephone :: "string option"
  in_department :: "string option"
  in_jobTitle :: "string option"
  in_notes :: "string option"
  in_organisationId :: "int option"
  in_custom1 :: "MembershipType option"
  in_enabled :: "bool option"
  in_systemId :: "string option"
  in_groupIds :: "int list option"
  in_imageBase64 :: "string option"

text \<open>
  A value thrown by an SDK call: a \<open>ResponseError\<close> (an \<open>Error\<close> that carries the HTTP
  status), any other \<open>Error\<close> with its message, or a thrown value that is not an \<open>Error\<close>.
\<close>

datatype thrown = ResponseError int string | OtherError string | NotAnError

text \<open>
  The client \<open>doorflow.people\<close> is an external collaborator. It is a parameter of the
  model: three operations over an arbitrary remote state \<open>'r\<close>. Listing reads the state;
  creating and updating return an outcome and the next remote state.
\<close>

record 'r PeopleApi =
  listPeople :: "'r \<Rightarrow> thrown + Person list"
  createPerson :: "PersonInput \<Rightarrow> 'r \<Rightarrow> (thrown + Person) \<times> 'r"
  updatePerson :: "int \<Rightarrow> PersonInput \<Rightarrow> 'r \<Rightarrow> (thrown + unit) \<times> 'r"

datatype api_call = ListPeople | CreatePerson PersonInput | UpdatePerson int PersonInput

datatype log_entry = SyncUpdateFailed int thrown | SyncApiError thrown | SyncApiStatus int

text \<open>
  Everything a run can read or change: the member file \<open>data/members.json\<close>, the team file
  \<open>data/teams.json\<close>, the photo directory (file name to base64 of its bytes), the remote
  directory, the system clock (the n-th reading of \<open>new Date()\<close> is \<open>timeAt n\<close>),
  the SDK calls issued so far and the lines written with \<open>console.error\<close>.
  Writes to the two JSON files are taken to succeed.
\<close>

record 'r world =
  store :: "CrmMember list"
  teamStore :: "CrmTeam list"
  photos :: "string \<rightharpoonup> string"
  remote :: 'r
  clock :: nat
  timeAt :: "nat \<Rightarrow> string"
  calls :: "api_call list"
  console :: "log_entry list"

section \<open>JavaScript primitives used by the route\<close>

text \<open>
  \<open>String.prototype.toLowerCase\<close>. A \<open>char\<close> stands for a UTF-16 code unit below 256
  (Basic Latin and Latin-1 Supplement), so a \<open>string\<close> is a JavaScript string over these
  code units. On them \<open>toLowerCase\<close> folds \<open>A..Z\<close> (65 to 90) and the Latin-1 capitals
  (192 to 222, except the multiplication sign 215) to the code unit 32 above, and keeps every
  other code unit; strings with a code unit from 256 on are outside the model.
\<close>

fun lowerChar :: "char \<Rightarrow> char" where
  "lowerChar (Char b0 b1 b2 b3 b4 b5 b6 b7) =
     (let n = (of_char (Char b0 b1 b2 b3 b4 b5 b6 b7) :: nat)
      in if (65 \<le> n \<and> n \<le> 90) \<or> (192 \<le> n \<and> n \<le> 222 \<and> n \<noteq> 215)
         then Char b0 b1 b2 b3 b4 True b6 b7
         else Char b0 b1 b2 b3 b4 b5 b6 b7)"

definition toLowerCase :: "string \<Rightarrow> string" where
  "toLowerCase s = map lowerChar s"

text \<open>Truthiness of a possibly missing string (\<open>''\<close> is falsy) and number (\<open>0\<close> is falsy).\<close>

definition truthyStr :: "string option \<Rightarrow> bool" where
  "truthyStr s = (case s of None \<Rightarrow> False | Some t \<Rightarrow> t \<noteq> [])"

definition truthyNum :: "int option \<Rightarrow> bool" where
  "truthyNum n = (case n of None \<Rightarrow> False | Some k \<Rightarrow> k \<noteq> 0)"

text \<open>\<open>x || null\<close> and \<open>x || undefined\<close>.\<close>

definition orNullStr :: "string option \<Rightarrow> string option" where
  "orNullStr s = (if truthyStr s then s else None)"

definition orNullNum :: "int option \<Rightarrow> int option" where
  "orNullNum n = (if truthyNum n then n else None)"

text \<open>\<open>Array.prototype.findIndex\<close>, with \<open>None\<close> for \<open>-1\<close>.\<close>

fun findIndex :: "('a \<Rightarrow> bool) \<Rightarrow> 'a list \<Rightarrow> nat option" where
  "findIndex P [] = None"
| "findIndex P (x # xs) =
     (if P x then Some 0 else map_option Suc (findIndex P xs))"

text \<open>\<open>new Map(entries)\<close>: entries are inserted in order, a later key overwrites.\<close>

definition newMap :: "('k \<times> 'v) list \<Rightarrow> ('k \<rightharpoonup> 'v)" where
  "newMap es = foldl (\<lambda>m (k, v). m(k \<mapsto> v)) Map.empty es"

section \<open>Team storage (src/lib/teams/storage.ts)\<close>

definition getTeamsByIds :: "CrmTeam list \<Rightarrow> string list \<Rightarrow> CrmTeam list" where
  "getTeamsByIds teams ids = filter (\<lambda>t. team_id t \<in> set ids) teams"

text \<open>
  \<open>t.doorflowGroupId as number\<close> is applied after the filter on
  \<open>doorflowGroupId != null\<close>, so the \<open>None\<close> branch below is never taken.
\<close>

definition getDoorflowGroupIdsForTeams :: "CrmTeam list \<Rightarrow> string list \<Rightarrow> int list" where
  "getDoorflowGroupIdsForTeams teams tids =
     map (\<lambda>t. case doorflowGroupId t of Some g \<Rightarrow> g | None \<Rightarrow> 0)
       (filter (\<lambda>t. doorflowGroupId t \<noteq> None) (getTeamsByIds teams tids))"

section \<open>Member storage (src/lib/members/storage.ts)\<close>

definition getMember :: "CrmMember list \<Rightarrow> string \<Rightarrow> CrmMember option" where
  "getMember members i = find (\<lambda>m. member_id m = i) members"

text \<open>
  \<open>MemberStorage.update(id, { doorflowPersonId: v })\<close>: the file is re-read, the first
  record with that id is replaced by a copy with the new link and a fresh \<open>updatedAt\<close>,
  and the file is written back. An unknown id changes nothing (the clock is not read).
\<close>

definition updateMember :: "string \<Rightarrow> int option \<Rightarrow> 'r world \<Rightarrow> 'r world" where
  "updateMember i v w =
     (case findIndex (\<lambda>m. member_id m = i) (store w) of
        None \<Rightarrow> w
      | Some k \<Rightarrow>
          w\<lparr>store := (store w)[k := (store w ! k)\<lparr>doorflowPersonId := v,
                                                    updatedAt := timeAt w (clock w)\<rparr>],
            clock := Suc (clock w)\<rparr>)"

section \<open>The sync route (src/app/api/members/sync/route.ts)\<close>

definition getMemberPhotoBase64 :: "'r world \<Rightarrow> CrmMember \<Rightarrow> string option" where
  "getMemberPhotoBase64 w member =
     photos w (toLowerCase (firstName member) @ ''_'' @ toLowerCase (lastName member) @ ''.png'')"

text \<open>The loop of \<open>POST\<close> that fills \<open>teamToGroupMap\<close>.\<close>

definition teamToGroupMapOf :: "CrmTeam list \<Rightarrow> (string \<rightharpoonup> int)" where
  "teamToGroupMapOf teams =
     foldl (\<lambda>m t. case doorflowGroupId t of Some g \<Rightarrow> m(team_id t \<mapsto> g) | None \<Rightarrow> m)
       Map.empty teams"

text \<open>
  The index \<open>peopleByEmail\<close>. The filter keeps the people whose email is truthy, so the
  \<open>None\<close> branch below is never taken.
\<close>

definition peopleByEmailOf :: "Person list \<Rightarrow> (string \<rightharpoonup> Person)" where
  "peopleByEmailOf doorflowPeople =
     newMap (map (\<lambda>p. (toLowerCase (case person_email p of Some e \<Rightarrow> e | None \<Rightarrow> []), p))
                 (filter (\<lambda>p. truthyStr (person_email p)) doorflowPeople))"

text \<open>
  \<open>member.teamIds || []\<close> guards a missing array; the type \<open>string[]\<close> of \<open>teamIds\<close>
  has no missing value, so the guard is the identity here.
\<close>

fun groupIdsLoop :: "(string \<rightharpoonup> int) \<Rightarrow> string list \<Rightarrow> int list \<Rightarrow> int list" where
  "groupIdsLoop teamToGroupMap [] groupIds = groupIds"
| "groupIdsLoop teamToGroupMap (teamId # rest) groupIds =
     (case teamToGroupMap teamId of
        Some groupId \<Rightarrow> groupIdsLoop teamToGroupMap rest (groupIds @ [groupId])
      | None \<Rightarrow> groupIdsLoop teamToGroupMap rest groupIds)"

definition getGroupIdsForMember :: "CrmMember \<Rightarrow> (string \<rightharpoonup> int) \<Rightarrow> int list" where
  "getGroupIdsForMember member teamToGroupMap =
     groupIdsLoop teamToGroupMap (teamIds member) []"

text \<open>The \<open>personInput\<close> literals of the two SDK calls.\<close>

definition emptyInput :: PersonInput where
  "emptyInput =
     \<lparr>in_firstName = None, in_lastName = None, in_email = None, in_telephone = None,
      in_department = None, in_jobTitle = None, in_notes = None, in_organisationId = None,
      in_custom1 = None, in_enabled = None, in_systemId = None, in_groupIds = None,
      in_imageBase64 = None\<rparr>"

definition updateInput :: "int list \<Rightarrow> string option \<Rightarrow> PersonInput" where
  "updateInput groupIds photoBase64 =
     emptyInput\<lparr>in_groupIds := (if groupIds \<noteq> [] then Some groupIds else None),
                in_imageBase64 := orNullStr photoBase64\<rparr>"

definition createInput :: "CrmMember \<Rightarrow> int list \<Rightarrow> string option \<Rightarrow> PersonInput" where
  "createInput member groupIds photoBase64 =
     \<lparr>in_firstName = Some (firstName member),
      in_lastName = Some (lastName member),
      in_email = orNullStr (Some (email member)),
      in_telephone = orNullStr (phone member),
      in_department = orNullStr (department member),
      in_jobTitle = orNullStr (jobTitle member),
      in_notes = orNullStr (notes_m member),
      in_organisationId = orNullNum (organisationId member),
      in_custom1 = Some (membershipType member),
      in_enabled = Some True,
      in_systemId = Some (member_id member),
      in_groupIds = (if groupIds \<noteq> [] then Some groupIds else None),
      in_imageBase64 = orNullStr photoBase64\<rparr>"

text \<open>\<open>err instanceof Error ? err.message : 'Failed to create person'\<close>\<close>

definition errorMessage :: "thrown \<Rightarrow> string" where
  "errorMessage err =
     (case err of
        ResponseError status msg \<Rightarrow> msg
      | OtherError msg \<Rightarrow> msg
      | NotAnError \<Rightarrow> ''Failed to create person'')"

text \<open>
  The first statement of \<open>tryMatchMember\<close>:
  \<open>member.email ? peopleByEmail.get(member.email.toLowerCase()) : null\<close>.
\<close>

definition lookupByEmail :: "CrmMember \<Rightarrow> (string \<rightharpoonup> Person) \<Rightarrow> Person option" where
  "lookupByEmail member peopleByEmail =
     (if email member \<noteq> [] then peopleByEmail (toLowerCase (email member)) else None)"

text \<open>
  \<open>tryMatchMember\<close>. The mutable \<open>results\<close> object and the outside world are passed in
  and returned. The function has no \<open>throw\<close> of its own and catches what the two SDK
  calls throw, so it always returns.
\<close>

definition tryMatchMember ::
  "CrmMember \<Rightarrow> (string \<rightharpoonup> Person) \<Rightarrow> SyncResult \<Rightarrow> bool \<Rightarrow> bool \<Rightarrow> 'r PeopleApi \<Rightarrow>
   (string \<rightharpoonup> int) \<Rightarrow> string option \<Rightarrow> 'r world \<Rightarrow> SyncResult \<times> 'r world" where
  "tryMatchMember member peopleByEmail results createMissing dryRun peopleApi teamToGroupMap
       photoBase64 w =
     (let existingPerson = lookupByEmail member peopleByEmail;
          groupIds = getGroupIdsForMember member teamToGroupMap
      in case existingPerson of
           Some p \<Rightarrow>
             (let w' =
                (if \<not> dryRun then
                   (let w1 = updateMember (member_id member) (Some (person_id p)) w
                    in if groupIds \<noteq> [] \<or> truthyStr photoBase64 then
                         (let inp = updateInput groupIds photoBase64;
                              (res, r') = updatePerson peopleApi (person_id p) inp (remote w1);
                              w2 = w1\<lparr>remote := r',
                                      calls := calls w1 @ [UpdatePerson (person_id p) inp]\<rparr>
                          in case res of
                               Inl err \<Rightarrow>
                                 w2\<lparr>console :=
                                      console w2 @ [SyncUpdateFailed (person_id p) err]\<rparr>
                             | Inr u \<Rightarrow> w2)
                       else w1)
                 else w)
              in (results\<lparr>matched := matched results @
                           [(member\<lparr>doorflowPersonId := Some (person_id p)\<rparr>, person_id p)]\<rparr>,
                  w'))
         | None \<Rightarrow>
             if createMissing then
               (if dryRun then (results\<lparr>created := created results @ [(member, 0)]\<rparr>, w)
                else
                  (let inp = createInput member groupIds photoBase64;
                       (res, r') = createPerson peopleApi inp (remote w);
                       w1 = w\<lparr>remote := r', calls := calls w @ [CreatePerson inp]\<rparr>
                   in case res of
                        Inr newPerson \<Rightarrow>
                          (results\<lparr>created := created results @
                             [(member\<lparr>doorflowPersonId := Some (person_id newPerson)\<rparr>,
                               person_id newPerson)]\<rparr>,
                           updateMember (member_id member) (Some (person_id newPerson)) w1)
                      | Inl err \<Rightarrow>
                          (results\<lparr>errors := errors results @ [(member, errorMessage err)]\<rparr>,
                           w1)))
             else (results\<lparr>unmatched := unmatched results @ [member]\<rparr>, w))"

text \<open>
  The body of the loop \<open>for (const member of members)\<close> in \<open>POST\<close>, for one member of
  the snapshot loaded at the start of the run.
\<close>

definition syncMember ::
  "'r PeopleApi \<Rightarrow> Person list \<Rightarrow> (string \<rightharpoonup> Person) \<Rightarrow> (string \<rightharpoonup> int) \<Rightarrow> bool \<Rightarrow> bool \<Rightarrow>
   CrmMember \<Rightarrow> SyncResult \<times> 'r world \<Rightarrow> SyncResult \<times> 'r world" where
  "syncMember peopleApi doorflowPeople peopleByEmail teamToGroupMap createMissing dryRun member st =
     (case st of (results, w) \<Rightarrow>
        if truthyNum (doorflowPersonId member) then
          (case find (\<lambda>p. Some (person_id p) = doorflowPersonId member) doorflowPeople of
             Some existingPerson \<Rightarrow>
               (results\<lparr>matched := matched results @
                   [(member, case doorflowPersonId member of Some i \<Rightarrow> i | None \<Rightarrow> 0)]\<rparr>, w)
           | None \<Rightarrow>
               (let w1 = (if \<not> dryRun then updateMember (member_id member) None w else w);
                    photoBase64 = getMemberPhotoBase64 w1 member
                in tryMatchMember member peopleByEmail results createMissing dryRun peopleApi
                     teamToGroupMap photoBase64 w1))
        else
          (let photoBase64 = getMemberPhotoBase64 w member
           in tryMatchMember member peopleByEmail results createMissing dryRun peopleApi
                teamToGroupMap photoBase64 w))"

fun syncLoop ::
  "'r PeopleApi \<Rightarrow> Person list \<Rightarrow> (string \<rightharpoonup> Person) \<Rightarrow> (string \<rightharpoonup> int) \<Rightarrow> bool \<Rightarrow> bool \<Rightarrow>
   CrmMember list \<Rightarrow> SyncResult \<times> 'r world \<Rightarrow> SyncResult \<times> 'r world" where
  "syncLoop peopleApi doorflowPeople peopleByEmail teamToGroupMap createMissing dryRun [] st = st"
| "syncLoop peopleApi doorflowPeople peopleByEmail teamToGroupMap createMissing dryRun
     (member # members) st =
     syncLoop peopleApi doorflowPeople peopleByEmail teamToGroupMap createMissing dryRun members
       (syncMember peopleApi doorflowPeople peopleByEmail teamToGroupMap createMissing dryRun
          member st)"

text \<open>The JSON error bodies of the \<open>catch\<close> block of \<open>POST\<close>, with their HTTP status.\<close>

datatype sync_failure = NotAuthenticated | DoorFlowApiError int | SyncFailed

definition failureStatus :: "sync_failure \<Rightarrow> int" where
  "failureStatus f =
     (case f of NotAuthenticated \<Rightarrow> 401 | DoorFlowApiError status \<Rightarrow> status | SyncFailed \<Rightarrow> 500)"

definition failureOf :: "thrown \<Rightarrow> sync_failure" where
  "failureOf err =
     (case err of
        ResponseError status msg \<Rightarrow>
          (if status = 401 then NotAuthenticated else DoorFlowApiError status)
      | OtherError msg \<Rightarrow> SyncFailed
      | NotAnError \<Rightarrow> SyncFailed)"

definition failureLog :: "thrown \<Rightarrow> log_entry list" where
  "failureLog err =
     (case err of
        ResponseError status msg \<Rightarrow> [SyncApiError err, SyncApiStatus status]
      | OtherError msg \<Rightarrow> [SyncApiError err]
      | NotAnError \<Rightarrow> [SyncApiError err])"

definition emptyResult :: SyncResult where
  "emptyResult = \<lparr>matched = [], created = [], unmatched = [], errors = []\<rparr>"

text \<open>
  \<open>POST\<close>, after the request body has been read into the two flags (a missing flag is
  \<open>false\<close>). With the file writes taken to succeed, the only call of \<open>POST\<close> that can
  throw past \<open>tryMatchMember\<close> is \<open>listPeople\<close>; its failure ends the run in the
  \<open>catch\<close> block. The log line with the response body is left out (the body of a failed
  response is not part of the model).
\<close>

definition POST :: "'r PeopleApi \<Rightarrow> bool \<Rightarrow> bool \<Rightarrow> 'r world \<Rightarrow> (sync_failure + SyncResult) \<times> 'r world" where
  "POST peopleApi createMissing dryRun w =
     (let members = store w;
          teams = teamStore w;
          teamToGroupMap = teamToGroupMapOf teams;
          w0 = w\<lparr>calls := calls w @ [ListPeople]\<rparr>
      in case listPeople peopleApi (remote w) of
           Inl err \<Rightarrow> (Inl (failureOf err), w0\<lparr>console := console w0 @ failureLog err\<rparr>)
         | Inr doorflowPeople \<Rightarrow>
             (let peopleByEmail = peopleByEmailOf doorflowPeople;
                  (results, w') =
                     syncLoop peopleApi doorflowPeople peopleByEmail teamToGroupMap
                       createMissing dryRun members (emptyResult, w0)
              in (Inr results, w')))"

section \<open>Notions used to state the properties\<close>

text \<open>The members reported by a run, over all four buckets.\<close>

definition bucketMembers :: "SyncResult \<Rightarrow> CrmMember list" where
  "bucketMembers r = map fst (matched r) @ map fst (created r) @ unmatched r @ map fst (errors r)"

text \<open>A member with the link field erased, and a result with every reported link erased.\<close>

definition unlinked :: "CrmMember \<Rightarrow> CrmMember" where
  "unlinked m = m\<lparr>doorflowPersonId := None\<rparr>"

definition forgetLinks :: "SyncResult \<Rightarrow> SyncResult" where
  "forgetLinks r =
     \<lparr>matched = map (\<lambda>(m, p). (unlinked m, p)) (matched r),
      created = map (\<lambda>(m, p). (unlinked m, p)) (created r),
      unmatched = map unlinked (unmatched r),
      errors = map (\<lambda>(m, e). (unlinked m, e)) (errors r)\<rparr>"

text \<open>
  The matching rule in the words of the specification: a remote person matches a member
  when the person has an email and the two emails are equal after lower-casing; among
  several matching people the one latest in the fetched list is taken.
\<close>

definition emailMatches :: "CrmMember \<Rightarrow> Person \<Rightarrow> bool" where
  "emailMatches member p =
     (case person_email p of
        None \<Rightarrow> False
      | Some e \<Rightarrow> e \<noteq> [] \<and> toLowerCase e = toLowerCase (email member))"

definition matchBySpec :: "CrmMember \<Rightarrow> Person list \<Rightarrow> Person option" where
  "matchBySpec member people =
     (let ps = filter (emailMatches member) people in if ps = [] then None else Some (last ps))"

text \<open>Auxiliary functions of the proofs.\<close>

fun updFirst :: "('a \<Rightarrow> bool) \<Rightarrow> ('a \<Rightarrow> 'a) \<Rightarrow> 'a list \<Rightarrow> 'a list" where
  "updFirst P f [] = []"
| "updFirst P f (x # xs) = (if P x then f x # xs else x # updFirst P f xs)"

definition mappedWithId :: "string \<Rightarrow> CrmTeam \<Rightarrow> bool" where
  "mappedWithId k t = (team_id t = k \<and> doorflowGroupId t \<noteq> None)"

definition emailKey :: "Person \<Rightarrow> string" where
  "emailKey p = toLowerCase (case person_email p of Some e \<Rightarrow> e | None \<Rightarrow> [])"

text \<open>The effect on the world of the guarded \<open>updatePerson\<close> call of the match branch.\<close>

definition pushUpdate :: "'r PeopleApi \<Rightarrow> int \<Rightarrow> PersonInput \<Rightarrow> 'r world \<Rightarrow> 'r world" where
  "pushUpdate api pid inp w =
     (case updatePerson api pid inp (remote w) of
        (Inl err, r') \<Rightarrow>
           w\<lparr>remote := r', calls := calls w @ [UpdatePerson pid inp],
             console := console w @ [SyncUpdateFailed pid err]\<rparr>
      | (Inr u, r') \<Rightarrow> w\<lparr>remote := r', calls := calls w @ [UpdatePerson pid inp]\<rparr>)"

text \<open>
  One entry of a result, the member id it is about, and what the store holds for it after
  a live run: for a matched or created entry the stored link is the reported person id; for
  an unmatched or failed entry the stored record is the loaded member, with the link cleared
  and \<open>updatedAt\<close> refreshed if the member was loaded with a (truthy) link.
\<close>

datatype entry =
  Matched CrmMember int | Created CrmMember int | Unmatched CrmMember | Failed CrmMember string

definition entries :: "SyncResult \<Rightarrow> entry set" where
  "entries r =
     (\<lambda>(m, p). Matched m p) ` set (matched r) \<union> (\<lambda>(m, p). Created m p) ` set (created r) \<union>
     Unmatched ` set (unmatched r) \<union> (\<lambda>(m, e). Failed m e) ` set (errors r)"

fun entryId :: "entry \<Rightarrow> string" where
  "entryId (Matched m p) = member_id m"
| "entryId (Created m p) = member_id m"
| "entryId (Unmatched m) = member_id m"
| "entryId (Failed m e) = member_id m"

definition healedAs :: "CrmMember \<Rightarrow> CrmMember \<Rightarrow> bool" where
  "healedAs m x =
     (if truthyNum (doorflowPersonId m)
      then x\<lparr>updatedAt := updatedAt m\<rparr> = m\<lparr>doorflowPersonId := None\<rparr>
      else x = m)"

fun stored :: "CrmMember list \<Rightarrow> entry \<Rightarrow> bool" where
  "stored st (Matched m p) =
     (case getMember st (member_id m) of Some x \<Rightarrow> doorflowPersonId x = Some p | None \<Rightarrow> False)"
| "stored st (Created m p) =
     (case getMember st (member_id m) of Some x \<Rightarrow> doorflowPersonId x = Some p | None \<Rightarrow> False)"
| "stored st (Unmatched m) =
     (case getMember st (member_id m) of Some x \<Rightarrow> healedAs m x | None \<Rightarrow> False)"
| "stored st (Failed m e) =
     (case getMember st (member_id m) of Some x \<Rightarrow> healedAs m x | None \<Rightarrow> False)"

text \<open>
  A link that the route accepts as it is: truthy, and the id of a fetched person.
\<close>

definition validLink :: "Person list \<Rightarrow> CrmMember \<Rightarrow> bool" where
  "validLink people m =
     (case doorflowPersonId m of
        Some pid \<Rightarrow> pid \<noteq> 0 \<and> pid \<in> person_id ` set people
      | None \<Rightarrow> False)"

text \<open>The \<open>systemId\<close> (the member id) of every \<open>createPerson\<close> call of a call log.\<close>

fun createsFor :: "api_call list \<Rightarrow> string option set" where
  "createsFor [] = {}"
| "createsFor (CreatePerson inp # cs) = insert (in_systemId inp) (createsFor cs)"
| "createsFor (c # cs) = createsFor cs"

text \<open>\<open>xs\<close> with \<open>x\<close> inserted before position \<open>k\<close>.\<close>

definition insAt :: "nat \<Rightarrow> 'a \<Rightarrow> 'a list \<Rightarrow> 'a list" where
  "insAt k x xs = take k xs @ x # drop k xs"

text \<open>
  The matched bucket of a result as a list of pairs of member id and person id: the reported
  member objects of two runs differ in their link and time stamp fields, so two matched buckets
  are compared by these pairs.
\<close>

definition matchedKeys :: "SyncResult \<Rightarrow> (string \<times> int) list" where
  "matchedKeys r = map (\<lambda>(m, p). (member_id m, p)) (matched r)"

text \<open>
  The pair that one member contributes to the matched bucket of a run over the listing
  \<open>people\<close>, if any (an auxiliary function of the proofs).
\<close>

definition matchKey :: "Person list \<Rightarrow> CrmMember \<Rightarrow> (string \<times> int) option" where
  "matchKey people m =
     (case doorflowPersonId m of
        Some pid \<Rightarrow>
          if pid \<noteq> 0 \<and> pid \<in> person_id ` set people then Some (member_id m, pid)
          else map_option (\<lambda>p. (member_id m, person_id p)) (matchBySpec m people)
      | None \<Rightarrow> map_option (\<lambda>p. (member_id m, person_id p)) (matchBySpec m people))"


section \<open>An in-memory directory and example data\<close>

text \<open>
  A small directory that implements the three operations: it lists its people, creates a
  person under the next free id unless the member id (\<open>systemId\<close>) is on a reject list,
  and accepts an update unless the person id is on a reject list.
\<close>

record directory =
  dir_people :: "Person list"
  dir_nextId :: int

definition fakeApi :: "string list \<Rightarrow> int list \<Rightarrow> directory PeopleApi" where
  "fakeApi rejectCreate rejectUpdate =
     \<lparr>listPeople = (\<lambda>d. Inr (dir_people d)),
      createPerson = (\<lambda>inp d.
        if in_systemId inp \<in> Some ` set rejectCreate
        then (Inl (OtherError ''remote error''), d)
        else (let p = \<lparr>person_id = dir_nextId d, person_email = in_email inp\<rparr>
              in (Inr p, d\<lparr>dir_people := dir_people d @ [p], dir_nextId := dir_nextId d + 1\<rparr>))),
      updatePerson = (\<lambda>i inp d.
        if i \<in> set rejectUpdate
        then (Inl (ResponseError 500 ''Response returned an error code''), d)
        else (Inr (), d))\<rparr>"

definition mkMember :: "string \<Rightarrow> string \<Rightarrow> string list \<Rightarrow> int option \<Rightarrow> CrmMember" where
  "mkMember i e ts link =
     \<lparr>member_id = i, firstName = ''Alice'', lastName = ''Smith'', email = e, phone = None,
      department = None, jobTitle = None, notes_m = None, organisationId = None,
      membershipType = Standard, teamIds = ts, doorflowPersonId = link,
      createdAt = ''t'', updatedAt = ''t''\<rparr>"

definition mkTeam :: "string \<Rightarrow> int option \<Rightarrow> CrmTeam" where
  "mkTeam i g =
     \<lparr>team_id = i, team_name = i, team_description = None, doorflowGroupId = g,
      team_createdAt = ''t'', team_updatedAt = ''t''\<rparr>"

definition stamp :: "nat \<Rightarrow> string" where
  "stamp n = CHR ''t'' # replicate (Suc n) CHR ''+''"

definition mkWorld :: "CrmMember list \<Rightarrow> CrmTeam list \<Rightarrow> Person list \<Rightarrow> directory world" where
  "mkWorld ms ts ps =
     \<lparr>store = ms, teamStore = ts, photos = Map.empty,
      remote = \<lparr>dir_people = ps, dir_nextId = 100\<rparr>,
      clock = 0, timeAt = stamp, calls = [], console = []\<rparr>"

definition memberA :: CrmMember where
  "memberA = mkMember ''a'' ''a@x.com'' [''t1''] None"

definition memberB :: CrmMember where
  "memberB = mkMember ''b'' ''b@x.com'' [] None"

definition memberC :: CrmMember where
  "memberC = mkMember ''c'' ''c@x.com'' [''t1'', ''t2'', ''t3'', ''t9''] None"

definition person10 :: Person where
  "person10 = \<lparr>person_id = 10, person_email = Some ''A@X.com''\<rparr>"

definition teamT1 :: CrmTeam where
  "teamT1 = mkTeam ''t1'' (Some 5)"

definition teamT2 :: CrmTeam where
  "teamT2 = mkTeam ''t2'' (Some 7)"

definition teamT3 :: CrmTeam where
  "teamT3 = mkTeam ''t3'' None"

definition staleA :: CrmMember where
  "staleA = memberA\<lparr>doorflowPersonId := Some 77\<rparr>"

definition person100 :: Person where
  "person100 = \<lparr>person_id = 100, person_email = Some ''b@x.com''\<rparr>"


definition zeroB :: CrmMember where
  "zeroB = memberB\<lparr>doorflowPersonId := Some 0\<rparr>"

definition person0 :: Person where
  "person0 = \<lparr>person_id = 0, person_email = None\<rparr>"

definition person100a :: Person where
  "person100a = \<lparr>person_id = 100, person_email = Some ''a@x.com''\<rparr>"

definition worldAfterA :: "directory world" where
  "worldAfterA =
     (mkWorld [memberA\<lparr>doorflowPersonId := Some 100, updatedAt := stamp 0\<rparr>, memberB, memberC]
        [teamT1] [])
       \<lparr>remote := \<lparr>dir_people = [person100a], dir_nextId = 101\<rparr>,
        clock := 1,
        calls := [ListPeople, CreatePerson (createInput memberA [5] None)]\<rparr>"


section \<open>Lemmas about the storage and the JavaScript primitives\<close>

lemma findIndex_updFirst:
  "(case findIndex P xs of None \<Rightarrow> xs | Some k \<Rightarrow> xs[k := f (xs ! k)]) = updFirst P f xs"
  by (induction xs) (auto split: option.splits)

lemma findIndex_None_iff: "findIndex P xs = None \<longleftrightarrow> (\<forall>x \<in> set xs. \<not> P x)"
  by (induction xs) auto

lemma store_updateMember:
  "store (updateMember i v w) =
     updFirst (\<lambda>m. member_id m = i)
       (\<lambda>m. m\<lparr>doorflowPersonId := v, updatedAt := timeAt w (clock w)\<rparr>) (store w)"
  unfolding updateMember_def
  by (simp add: findIndex_updFirst[symmetric] split: option.splits)

lemma updateMember_frame [simp]:
  "remote (updateMember i v w) = remote w"
  "calls (updateMember i v w) = calls w"
  "console (updateMember i v w) = console w"
  "teamStore (updateMember i v w) = teamStore w"
  "photos (updateMember i v w) = photos w"
  "timeAt (updateMember i v w) = timeAt w"
  unfolding updateMember_def by (simp_all split: option.splits)

lemma map_id_updFirst:
  "(\<And>x. g (f x) = g x) \<Longrightarrow> map g (updFirst P f xs) = map g xs"
  by (induction xs) auto

lemma find_updFirst_same:
  "(\<And>x. P x \<Longrightarrow> P (f x)) \<Longrightarrow> find P (updFirst P f xs) = map_option f (find P xs)"
  by (induction xs) auto

lemma find_updFirst_other:
  "(\<And>x. Q (f x) = Q x) \<Longrightarrow> (\<And>x. P x \<Longrightarrow> \<not> Q x) \<Longrightarrow> find Q (updFirst P f xs) = find Q xs"
  by (induction xs) auto

lemma member_ids_updateMember [simp]:
  "map member_id (store (updateMember i v w)) = map member_id (store w)"
  by (simp add: store_updateMember map_id_updFirst)

lemma getMember_updateMember:
  "getMember (store (updateMember i v w)) j =
     (if j = i
      then map_option (\<lambda>m. m\<lparr>doorflowPersonId := v, updatedAt := timeAt w (clock w)\<rparr>)
             (getMember (store w) i)
      else getMember (store w) j)"
  unfolding getMember_def store_updateMember
  by (auto simp: find_updFirst_same intro!: find_updFirst_other)

lemma groupIdsLoop_set:
  "set (groupIdsLoop m ts acc) = set acc \<union> {g. \<exists>t \<in> set ts. m t = Some g}"
proof (induction ts arbitrary: acc)
  case Nil
  then show ?case by simp
next
  case (Cons t ts)
  show ?case
  proof (cases "m t")
    case None
    then show ?thesis using Cons[of acc] by auto
  next
    case (Some g)
    then show ?thesis using Cons[of "acc @ [g]"] by auto
  qed
qed

lemma teamFold_lookup:
  "foldl (\<lambda>m t. case doorflowGroupId t of Some g \<Rightarrow> m(team_id t \<mapsto> g) | None \<Rightarrow> m) m0 teams k =
     (if filter (mappedWithId k) teams = [] then m0 k
      else doorflowGroupId (last (filter (mappedWithId k) teams)))"
proof (induction teams rule: rev_induct)
  case Nil
  then show ?case by simp
next
  case (snoc t ts)
  show ?case
  proof (cases "doorflowGroupId t")
    case None
    then have "\<not> mappedWithId k t" by (simp add: mappedWithId_def)
    then show ?thesis using snoc None by simp
  next
    case (Some g)
    show ?thesis
    proof (cases "team_id t = k")
      case True
      then have "mappedWithId k t" using Some by (simp add: mappedWithId_def)
      then show ?thesis using Some True by simp
    next
      case False
      then have "\<not> mappedWithId k t" by (simp add: mappedWithId_def)
      then show ?thesis using snoc Some False by simp
    qed
  qed
qed

lemma teamToGroupMapOf_lookup:
  "teamToGroupMapOf teams k =
     (if filter (mappedWithId k) teams = [] then None
      else doorflowGroupId (last (filter (mappedWithId k) teams)))"
  by (simp add: teamToGroupMapOf_def teamFold_lookup)

lemma teamToGroupMapOf_Some:
  assumes "distinct (map team_id teams)"
  shows "teamToGroupMapOf teams k = Some g \<longleftrightarrow>
         (\<exists>t \<in> set teams. team_id t = k \<and> doorflowGroupId t = Some g)"
proof
  assume l: "teamToGroupMapOf teams k = Some g"
  let ?ts = "filter (mappedWithId k) teams"
  from l have ne: "?ts \<noteq> []" and g: "doorflowGroupId (last ?ts) = Some g"
    by (simp_all add: teamToGroupMapOf_lookup split: if_splits)
  from ne have "last ?ts \<in> set ?ts" by (rule last_in_set)
  then have "last ?ts \<in> set teams" and "team_id (last ?ts) = k"
    by (simp_all add: mappedWithId_def)
  with g show "\<exists>t \<in> set teams. team_id t = k \<and> doorflowGroupId t = Some g" by blast
next
  assume "\<exists>t \<in> set teams. team_id t = k \<and> doorflowGroupId t = Some g"
  then obtain t where t: "t \<in> set teams" "team_id t = k" "doorflowGroupId t = Some g" by blast
  let ?ts = "filter (mappedWithId k) teams"
  from t have ne: "?ts \<noteq> []" by (auto simp: filter_empty_conv mappedWithId_def)
  then have "last ?ts \<in> set ?ts" by (rule last_in_set)
  then have "last ?ts \<in> set teams" and "team_id (last ?ts) = team_id t"
    using t(2) by (simp_all add: mappedWithId_def)
  moreover have "inj_on team_id (set teams)"
    using assms by (simp add: distinct_map)
  ultimately have "last ?ts = t" using t(1) by (simp add: inj_on_def)
  then show "teamToGroupMapOf teams k = Some g"
    using ne t(3) by (simp add: teamToGroupMapOf_lookup)
qed

lemma set_getDoorflowGroupIdsForTeams:
  "set (getDoorflowGroupIdsForTeams teams tids) =
     {g. \<exists>t \<in> set teams. team_id t \<in> set tids \<and> doorflowGroupId t = Some g}"
  (is "?L = ?R")
proof (rule set_eqI)
  fix g
  have "g \<in> ?L \<longleftrightarrow>
        (\<exists>t \<in> set teams. team_id t \<in> set tids \<and> doorflowGroupId t \<noteq> None \<and>
            g = (case doorflowGroupId t of Some g \<Rightarrow> g | None \<Rightarrow> 0))"
    unfolding getDoorflowGroupIdsForTeams_def getTeamsByIds_def by (simp add: image_iff) blast
  also have "\<dots> \<longleftrightarrow> (\<exists>t \<in> set teams. team_id t \<in> set tids \<and> doorflowGroupId t = Some g)"
  proof (intro bex_cong refl)
    fix t
    show "(team_id t \<in> set tids \<and> doorflowGroupId t \<noteq> None \<and>
            g = (case doorflowGroupId t of Some g \<Rightarrow> g | None \<Rightarrow> 0)) =
          (team_id t \<in> set tids \<and> doorflowGroupId t = Some g)"
      by (cases "doorflowGroupId t") auto
  qed
  finally show "g \<in> ?L \<longleftrightarrow> g \<in> ?R" by simp
qed

lemma foldl_upd_lookup:
  "foldl (\<lambda>m (k, v). m(k \<mapsto> v)) m0 es k =
     (if filter (\<lambda>e. fst e = k) es = [] then m0 k
      else Some (snd (last (filter (\<lambda>e. fst e = k) es))))"
proof (induction es rule: rev_induct)
  case Nil
  then show ?case by simp
next
  case (snoc e es)
  obtain k' v where e: "e = (k', v)" by (cases e)
  show ?case
  proof (cases "k' = k")
    case True
    then show ?thesis by (simp add: e)
  next
    case False
    then show ?thesis using snoc by (simp add: e)
  qed
qed

lemma newMap_lookup:
  "newMap es k =
     (if filter (\<lambda>e. fst e = k) es = [] then None
      else Some (snd (last (filter (\<lambda>e. fst e = k) es))))"
  by (simp add: newMap_def foldl_upd_lookup)

lemma toLowerCase_Nil [simp]: "toLowerCase s = [] \<longleftrightarrow> s = []" "[] = toLowerCase s \<longleftrightarrow> s = []"
  by (auto simp: toLowerCase_def)

lemma toLowerCase_empty [simp]: "toLowerCase [] = []"
  by (simp add: toLowerCase_def)

lemma filter_entries:
  "filter (\<lambda>e. fst e = k) (map (\<lambda>p. (emailKey p, p)) (filter T people)) =
   map (\<lambda>p. (emailKey p, p)) (filter (\<lambda>p. T p \<and> emailKey p = k) people)"
  by (induction people) simp_all

lemma peopleByEmailOf_lookup:
  "peopleByEmailOf people k =
     (let ps = filter (\<lambda>p. truthyStr (person_email p) \<and> emailKey p = k) people
      in if ps = [] then None else Some (last ps))"
proof -
  have "peopleByEmailOf people = newMap (map (\<lambda>p. (emailKey p, p))
                 (filter (\<lambda>p. truthyStr (person_email p)) people))"
    by (simp add: peopleByEmailOf_def emailKey_def)
  then show ?thesis
    by (simp add: newMap_lookup filter_entries last_map Let_def)
qed

lemma emailMatches_key:
  "email member \<noteq> [] \<Longrightarrow>
   (truthyStr (person_email p) \<and> emailKey p = toLowerCase (email member)) = emailMatches member p"
  by (cases "person_email p") (simp_all add: emailMatches_def truthyStr_def emailKey_def)

lemma emailMatches_empty:
  "email member = [] \<Longrightarrow> \<not> emailMatches member p"
  by (cases "person_email p") (simp_all add: emailMatches_def)

lemma lookupByEmail_spec:
  "lookupByEmail member (peopleByEmailOf people) = matchBySpec member people"
proof (cases "email member = []")
  case True
  then have "filter (emailMatches member) people = []"
    by (simp add: filter_empty_conv emailMatches_empty)
  then show ?thesis using True by (simp add: lookupByEmail_def matchBySpec_def)
next
  case False
  then show ?thesis
    by (simp add: lookupByEmail_def matchBySpec_def peopleByEmailOf_lookup emailMatches_key)
qed

section \<open>Lemmas about the sync route\<close>

lemma tryMatch_found_dry:
  "lookupByEmail member idx = Some p \<Longrightarrow>
   tryMatchMember member idx results cm True api tg photo w =
     (results\<lparr>matched := matched results @
         [(member\<lparr>doorflowPersonId := Some (person_id p)\<rparr>, person_id p)]\<rparr>, w)"
  by (simp add: tryMatchMember_def Let_def)

lemma tryMatch_found_live:
  "lookupByEmail member idx = Some p \<Longrightarrow>
   tryMatchMember member idx results cm False api tg photo w =
     (results\<lparr>matched := matched results @
         [(member\<lparr>doorflowPersonId := Some (person_id p)\<rparr>, person_id p)]\<rparr>,
      (let w1 = updateMember (member_id member) (Some (person_id p)) w;
           groupIds = getGroupIdsForMember member tg
       in if groupIds \<noteq> [] \<or> truthyStr photo
          then pushUpdate api (person_id p) (updateInput groupIds photo) w1 else w1))"
  by (simp add: tryMatchMember_def pushUpdate_def Let_def split: prod.splits sum.splits)

lemma tryMatch_unmatched:
  "lookupByEmail member idx = None \<Longrightarrow>
   tryMatchMember member idx results False dr api tg photo w =
     (results\<lparr>unmatched := unmatched results @ [member]\<rparr>, w)"
  by (simp add: tryMatchMember_def Let_def)

lemma tryMatch_create_dry:
  "lookupByEmail member idx = None \<Longrightarrow>
   tryMatchMember member idx results True True api tg photo w =
     (results\<lparr>created := created results @ [(member, 0)]\<rparr>, w)"
  by (simp add: tryMatchMember_def Let_def)

lemma tryMatch_create_ok:
  "lookupByEmail member idx = None \<Longrightarrow>
   createPerson api (createInput member (getGroupIdsForMember member tg) photo) (remote w)
     = (Inr newPerson, r') \<Longrightarrow>
   tryMatchMember member idx results True False api tg photo w =
     (results\<lparr>created := created results @
         [(member\<lparr>doorflowPersonId := Some (person_id newPerson)\<rparr>, person_id newPerson)]\<rparr>,
      updateMember (member_id member) (Some (person_id newPerson))
        (w\<lparr>remote := r',
           calls := calls w @
             [CreatePerson (createInput member (getGroupIdsForMember member tg) photo)]\<rparr>))"
  by (simp add: tryMatchMember_def Let_def)

lemma tryMatch_create_fail:
  "lookupByEmail member idx = None \<Longrightarrow>
   createPerson api (createInput member (getGroupIdsForMember member tg) photo) (remote w)
     = (Inl err, r') \<Longrightarrow>
   tryMatchMember member idx results True False api tg photo w =
     (results\<lparr>errors := errors results @ [(member, errorMessage err)]\<rparr>,
      w\<lparr>remote := r',
        calls := calls w @
          [CreatePerson (createInput member (getGroupIdsForMember member tg) photo)]\<rparr>)"
  by (simp add: tryMatchMember_def Let_def)

lemma tryMatch_cases:
  obtains (found_dry) p where "lookupByEmail member idx = Some p" "dr"
  | (found_live) p where "lookupByEmail member idx = Some p" "\<not> dr"
  | (unmatched) "lookupByEmail member idx = None" "\<not> cm"
  | (create_dry) "lookupByEmail member idx = None" "cm" "dr"
  | (create_ok) newPerson r' where "lookupByEmail member idx = None" "cm" "\<not> dr"
      "createPerson api (createInput member (getGroupIdsForMember member tg) photo) (remote w)
        = (Inr newPerson, r')"
  | (create_fail) err r' where "lookupByEmail member idx = None" "cm" "\<not> dr"
      "createPerson api (createInput member (getGroupIdsForMember member tg) photo) (remote w)
        = (Inl err, r')"
proof (cases "lookupByEmail member idx")
  case None
  show ?thesis
  proof (cases "createPerson api (createInput member (getGroupIdsForMember member tg) photo) (remote w)")
    case (Pair res r')
    then show ?thesis using None that(3-6) by (cases res; cases cm; cases dr) auto
  qed
next
  case (Some p)
  then show ?thesis using that(1,2) by (cases dr) auto
qed

lemma tryMatch_bucketMembers:
  "image_mset unlinked (mset (bucketMembers (fst (tryMatchMember member idx results cm dr api tg photo w))))
     = image_mset unlinked (mset (bucketMembers results)) + {#unlinked member#}"
  by (rule tryMatch_cases[where member=member and idx=idx and dr=dr and cm=cm and api=api and tg=tg and photo=photo and w=w])
     (simp_all add: tryMatch_found_dry tryMatch_found_live tryMatch_unmatched tryMatch_create_dry
        tryMatch_create_ok tryMatch_create_fail bucketMembers_def unlinked_def)

lemma syncMember_bucketMembers:
  "image_mset unlinked (mset (bucketMembers (fst (syncMember api people idx tg cm dr member (results, w)))))
     = image_mset unlinked (mset (bucketMembers results)) + {#unlinked member#}"
  by (simp add: syncMember_def tryMatch_bucketMembers Let_def split: option.splits)
     (simp add: bucketMembers_def)

lemma syncLoop_bucketMembers:
  "image_mset unlinked (mset (bucketMembers (fst (syncLoop api people idx tg cm dr members st))))
     = image_mset unlinked (mset (bucketMembers (fst st))) + image_mset unlinked (mset members)"
proof (induction members arbitrary: st)
  case Nil
  then show ?case by simp
next
  case (Cons m ms)
  obtain r w where st: "st = (r, w)" by (cases st)
  show ?case
    by (simp add: Cons.IH st syncMember_bucketMembers)
qed

lemma POST_result:
  "listPeople api (remote w) = Inr people \<Longrightarrow>
   POST api cm dr w =
     (Inr (fst (syncLoop api people (peopleByEmailOf people) (teamToGroupMapOf (teamStore w)) cm dr
               (store w) (emptyResult, w\<lparr>calls := calls w @ [ListPeople]\<rparr>))),
      snd (syncLoop api people (peopleByEmailOf people) (teamToGroupMapOf (teamStore w)) cm dr
               (store w) (emptyResult, w\<lparr>calls := calls w @ [ListPeople]\<rparr>)))"
  by (simp add: POST_def Let_def split: prod.splits)

lemma POST_failure:
  "listPeople api (remote w) = Inl err \<Longrightarrow>
   POST api cm dr w =
     (Inl (failureOf err),
      w\<lparr>calls := calls w @ [ListPeople], console := console w @ failureLog err\<rparr>)"
  by (simp add: POST_def Let_def)

lemma tryMatch_dry_world:
  "snd (tryMatchMember member idx results cm True api tg photo w) = w"
  by (rule tryMatch_cases[where member=member and idx=idx and dr=True and cm=cm and api=api and tg=tg and photo=photo and w=w])
     (simp_all add: tryMatch_found_dry tryMatch_unmatched tryMatch_create_dry)

lemma syncMember_dry_world:
  "snd (syncMember api people idx tg cm True member (results, w)) = w"
  by (simp add: syncMember_def tryMatch_dry_world Let_def split: option.splits)

lemma syncLoop_dry_world:
  "snd (syncLoop api people idx tg cm True members st) = snd st"
proof (induction members arbitrary: st)
  case Nil
  then show ?case by simp
next
  case (Cons m ms)
  obtain r w where st: "st = (r, w)" by (cases st)
  show ?case by (simp add: Cons.IH st syncMember_dry_world)
qed

lemma tryMatch_matched:
  "matched (fst (tryMatchMember member idx results cm dr api tg photo w)) =
     (case lookupByEmail member idx of
        Some p \<Rightarrow> matched results @ [(member\<lparr>doorflowPersonId := Some (person_id p)\<rparr>, person_id p)]
      | None \<Rightarrow> matched results)"
  by (rule tryMatch_cases[where member=member and idx=idx and dr=dr and cm=cm and api=api
        and tg=tg and photo=photo and w=w])
     (simp_all add: tryMatch_found_dry tryMatch_found_live tryMatch_unmatched tryMatch_create_dry
        tryMatch_create_ok tryMatch_create_fail)

lemma find_person_Some:
  "p \<in> set people \<Longrightarrow> person_id p = pid \<Longrightarrow>
   \<exists>q. find (\<lambda>p. Some (person_id p) = Some pid) people = Some q"
  by (cases "find (\<lambda>p. Some (person_id p) = Some pid) people") (auto simp: find_None_iff)

lemma unlinked_simps [simp]:
  "member_id (unlinked m) = member_id m"
  "email (unlinked m) = email m"
  "teamIds (unlinked m) = teamIds m"
  "firstName (unlinked m) = firstName m"
  "lastName (unlinked m) = lastName m"
  "unlinked (m\<lparr>doorflowPersonId := v\<rparr>) = unlinked m"
  "unlinked (unlinked m) = unlinked m"
  by (simp_all add: unlinked_def)

lemma unlinked_inputs [simp]:
  "lookupByEmail (unlinked m) idx = lookupByEmail m idx"
  "getGroupIdsForMember (unlinked m) tg = getGroupIdsForMember m tg"
  "createInput (unlinked m) gs photo = createInput m gs photo"
  "getMemberPhotoBase64 w (unlinked m) = getMemberPhotoBase64 w m"
  by (simp_all add: lookupByEmail_def getGroupIdsForMember_def createInput_def
        getMemberPhotoBase64_def unlinked_def)

lemma tryMatch_unlinked:
  "snd (tryMatchMember (unlinked member) idx results cm dr api tg photo w) =
   snd (tryMatchMember member idx results cm dr api tg photo w) \<and>
   forgetLinks (fst (tryMatchMember (unlinked member) idx results cm dr api tg photo w)) =
   forgetLinks (fst (tryMatchMember member idx results cm dr api tg photo w))"
  by (rule tryMatch_cases[where member=member and idx=idx and dr=dr and cm=cm and api=api
        and tg=tg and photo=photo and w=w])
     (simp_all add: tryMatch_found_dry tryMatch_found_live tryMatch_unmatched tryMatch_create_dry
        tryMatch_create_ok tryMatch_create_fail forgetLinks_def)

lemma photo_updateMember [simp]:
  "getMemberPhotoBase64 (updateMember i v w) m = getMemberPhotoBase64 w m"
  by (simp add: getMemberPhotoBase64_def)

lemma syncMember_stale:
  assumes "doorflowPersonId member = Some pid" and "pid \<noteq> 0"
    and "\<forall>p \<in> set people. person_id p \<noteq> pid"
  shows "syncMember api people idx tg cm dr member (results, w) =
         tryMatchMember member idx results cm dr api tg (getMemberPhotoBase64 w member)
           (if dr then w else updateMember (member_id member) None w)"
proof -
  have "find (\<lambda>p. Some (person_id p) = Some pid) people = None"
    using assms(3) by (auto simp: find_None_iff)
  then show ?thesis using assms(1,2)
    by (simp add: syncMember_def truthyNum_def Let_def)
qed

lemma syncMember_unlinked:
  assumes "\<not> truthyNum (doorflowPersonId member)"
  shows "syncMember api people idx tg cm dr member (results, w) =
         tryMatchMember member idx results cm dr api tg (getMemberPhotoBase64 w member) w"
  using assms by (simp add: syncMember_def Let_def)


lemma syncMember_valid:
  assumes "doorflowPersonId member = Some pid" and "pid \<noteq> 0"
    and "pid \<in> person_id ` set doorflowPeople"
  shows "syncMember api doorflowPeople peopleByEmail teamToGroupMap createMissing dryRun member
           (results, w) =
         (results\<lparr>matched := matched results @ [(member, pid)]\<rparr>, w)"
proof -
  obtain q where "find (\<lambda>p. Some (person_id p) = Some pid) doorflowPeople = Some q"
    using assms(3) find_person_Some by blast
  then show ?thesis
    using assms(1,2) by (simp add: syncMember_def truthyNum_def)
qed

lemma syncMember_matched_mono:
  "set (matched (fst st)) \<subseteq> set (matched (fst (syncMember api people idx tg cm dr member st)))"
proof -
  obtain r w where st: "st = (r, w)" by (cases st)
  show ?thesis
    unfolding st syncMember_def
    by (auto simp: tryMatch_matched Let_def split: option.splits)
qed

lemma syncLoop_matched_mono:
  "set (matched (fst st)) \<subseteq> set (matched (fst (syncLoop api people idx tg cm dr members st)))"
proof (induction members arbitrary: st)
  case Nil
  then show ?case by simp
next
  case (Cons m ms)
  have "set (matched (fst st)) \<subseteq> set (matched (fst (syncMember api people idx tg cm dr m st)))"
    by (rule syncMember_matched_mono)
  also have "\<dots> \<subseteq> set (matched (fst (syncLoop api people idx tg cm dr ms
                                          (syncMember api people idx tg cm dr m st))))"
    by (rule Cons.IH)
  finally show ?case by simp
qed

lemma syncLoop_matched_valid:
  assumes "doorflowPersonId member = Some pid" and "pid \<noteq> 0"
    and "pid \<in> person_id ` set people"
  shows "member \<in> set members \<Longrightarrow>
         (member, pid) \<in> set (matched (fst (syncLoop api people idx tg cm dr members st)))"
proof (induction members arbitrary: st)
  case Nil
  then show ?case by simp
next
  case (Cons m ms)
  obtain r w where st: "st = (r, w)" by (cases st)
  show ?case
  proof (cases "m = member")
    case True
    have "(member, pid) \<in> set (matched (fst (syncMember api people idx tg cm dr member st)))"
      unfolding st syncMember_valid[OF assms] by simp
    then show ?thesis
      using syncLoop_matched_mono[of "syncMember api people idx tg cm dr member st"
          api people idx tg cm dr ms] True
      by auto
  next
    case False
    then have "member \<in> set ms" using Cons.prems by simp
    then show ?thesis using Cons.IH by simp
  qed
qed

lemma pushUpdate_frame:
  "store (pushUpdate api pid inp w) = store w"
  "calls (pushUpdate api pid inp w) = calls w @ [UpdatePerson pid inp]"
  "console (pushUpdate api pid inp w) =
     console w @ (case fst (updatePerson api pid inp (remote w)) of
                    Inl err \<Rightarrow> [SyncUpdateFailed pid err] | Inr u \<Rightarrow> [])"
  "clock (pushUpdate api pid inp w) = clock w"
  "timeAt (pushUpdate api pid inp w) = timeAt w"
  "photos (pushUpdate api pid inp w) = photos w"
  "teamStore (pushUpdate api pid inp w) = teamStore w"
  by (simp_all add: pushUpdate_def split: prod.splits sum.splits)

lemma photo_frame:
  "getMemberPhotoBase64 (w\<lparr>calls := c\<rparr>) m = getMemberPhotoBase64 w m"
  "getMemberPhotoBase64 (w\<lparr>remote := d\<rparr>) m = getMemberPhotoBase64 w m"
  "getMemberPhotoBase64 (w\<lparr>console := l\<rparr>) m = getMemberPhotoBase64 w m"
  by (simp_all add: getMemberPhotoBase64_def)

lemma entries_simps [simp]:
  "entries (r\<lparr>matched := matched r @ [(m, p)]\<rparr>) = insert (Matched m p) (entries r)"
  "entries (r\<lparr>created := created r @ [(m, p)]\<rparr>) = insert (Created m p) (entries r)"
  "entries (r\<lparr>unmatched := unmatched r @ [m]\<rparr>) = insert (Unmatched m) (entries r)"
  "entries (r\<lparr>errors := errors r @ [(m, e)]\<rparr>) = insert (Failed m e) (entries r)"
  "entries emptyResult = {}"
  by (auto simp: entries_def emptyResult_def)

lemma store_frame [simp]:
  "store (pushUpdate api pid inp w) = store w"
  by (simp add: pushUpdate_frame)

lemma tryMatch_store_other:
  "j \<noteq> member_id member \<Longrightarrow>
   getMember (store (snd (tryMatchMember member idx results cm dr api tg photo w))) j =
   getMember (store w) j"
  by (rule tryMatch_cases[where member=member and idx=idx and dr=dr and cm=cm and api=api
        and tg=tg and photo=photo and w=w])
     (simp_all add: tryMatch_found_dry tryMatch_found_live tryMatch_unmatched tryMatch_create_dry
        tryMatch_create_ok tryMatch_create_fail getMember_updateMember Let_def)

lemma syncMember_store_other:
  "j \<noteq> member_id member \<Longrightarrow>
   getMember (store (snd (syncMember api people idx tg cm dr member (r, w)))) j =
   getMember (store w) j"
  by (simp add: syncMember_def Let_def tryMatch_store_other getMember_updateMember
        split: option.splits)


lemma tryMatch_entry_live:
  assumes "getMember (store w) (member_id member) = Some x"
  shows "\<exists>e. entries (fst (tryMatchMember member idx r cm False api tg photo w)) =
                insert e (entries r) \<and>
             entryId e = member_id member \<and>
             (case e of
                Matched m' p \<Rightarrow>
                  stored (store (snd (tryMatchMember member idx r cm False api tg photo w))) e
              | Created m' p \<Rightarrow>
                  stored (store (snd (tryMatchMember member idx r cm False api tg photo w))) e
              | Unmatched m' \<Rightarrow> m' = member \<and>
                  store (snd (tryMatchMember member idx r cm False api tg photo w)) = store w
              | Failed m' msg \<Rightarrow> m' = member \<and>
                  store (snd (tryMatchMember member idx r cm False api tg photo w)) = store w)"
proof (rule tryMatch_cases[where member=member and idx=idx and dr=False and cm=cm and api=api
        and tg=tg and photo=photo and w=w])
  fix p assume "lookupByEmail member idx = Some p" "False"
  then show ?thesis by simp
next
  fix p assume l: "lookupByEmail member idx = Some p"
  show ?thesis
    unfolding tryMatch_found_live[OF l]
    by (rule exI[of _ "Matched (member\<lparr>doorflowPersonId := Some (person_id p)\<rparr>) (person_id p)"])
       (simp add: Let_def getMember_updateMember assms)
next
  assume l: "lookupByEmail member idx = None" and c: "\<not> cm"
  have eq: "tryMatchMember member idx r cm False api tg photo w =
              (r\<lparr>unmatched := unmatched r @ [member]\<rparr>, w)"
    using c tryMatch_unmatched[OF l] by simp
  show ?thesis
    unfolding eq by (intro exI[of _ "Unmatched member"]) simp
next
  assume "lookupByEmail member idx = None" "cm" "False"
  then show ?thesis by simp
next
  fix newPerson r'
  assume l: "lookupByEmail member idx = None" and c: "cm"
    and cp: "createPerson api (createInput member (getGroupIdsForMember member tg) photo) (remote w)
              = (Inr newPerson, r')"
  have eq: "tryMatchMember member idx r cm False api tg photo w =
     (r\<lparr>created := created r @
         [(member\<lparr>doorflowPersonId := Some (person_id newPerson)\<rparr>, person_id newPerson)]\<rparr>,
      updateMember (member_id member) (Some (person_id newPerson))
        (w\<lparr>remote := r',
           calls := calls w @
             [CreatePerson (createInput member (getGroupIdsForMember member tg) photo)]\<rparr>))"
    using c tryMatch_create_ok[OF l cp] by simp
  show ?thesis
    unfolding eq
    by (intro exI[of _ "Created (member\<lparr>doorflowPersonId := Some (person_id newPerson)\<rparr>)
                          (person_id newPerson)"])
       (simp add: getMember_updateMember assms)
next
  fix err r'
  assume l: "lookupByEmail member idx = None" and c: "cm"
    and cp: "createPerson api (createInput member (getGroupIdsForMember member tg) photo) (remote w)
              = (Inl err, r')"
  have eq: "tryMatchMember member idx r cm False api tg photo w =
     (r\<lparr>errors := errors r @ [(member, errorMessage err)]\<rparr>,
      w\<lparr>remote := r',
        calls := calls w @
          [CreatePerson (createInput member (getGroupIdsForMember member tg) photo)]\<rparr>)"
    using c tryMatch_create_fail[OF l cp] by simp
  show ?thesis
    unfolding eq by (intro exI[of _ "Failed member (errorMessage err)"]) simp
qed

lemma stored_cong:
  "getMember st' (entryId e) = getMember st (entryId e) \<Longrightarrow> stored st' e = stored st e"
  by (cases e) simp_all

lemma syncMember_entry_live:
  assumes g: "getMember (store w) (member_id member) = Some member"
  shows "\<exists>e. entries (fst (syncMember api people idx tg cm False member (r, w))) =
                insert e (entries r) \<and>
             entryId e = member_id member \<and>
             stored (store (snd (syncMember api people idx tg cm False member (r, w)))) e"
proof (cases "truthyNum (doorflowPersonId member)")
  case False
  obtain e where e: "entries (fst (tryMatchMember member idx r cm False api tg
                        (getMemberPhotoBase64 w member) w)) = insert e (entries r)"
      "entryId e = member_id member"
      "(case e of
          Matched m' p \<Rightarrow>
            stored (store (snd (tryMatchMember member idx r cm False api tg
                                  (getMemberPhotoBase64 w member) w))) e
        | Created m' p \<Rightarrow>
            stored (store (snd (tryMatchMember member idx r cm False api tg
                                  (getMemberPhotoBase64 w member) w))) e
        | Unmatched m' \<Rightarrow> m' = member \<and>
            store (snd (tryMatchMember member idx r cm False api tg
                          (getMemberPhotoBase64 w member) w)) = store w
        | Failed m' msg \<Rightarrow> m' = member \<and>
            store (snd (tryMatchMember member idx r cm False api tg
                          (getMemberPhotoBase64 w member) w)) = store w)"
    using tryMatch_entry_live[OF g] by blast
  have "stored (store (snd (tryMatchMember member idx r cm False api tg
                              (getMemberPhotoBase64 w member) w))) e"
    using e(3) g False by (cases e) (simp_all add: healedAs_def)
  then show ?thesis
    unfolding syncMember_unlinked[OF False] using e(1,2) by blast
next
  case True
  then obtain pid where pid: "doorflowPersonId member = Some pid" "pid \<noteq> 0"
    by (auto simp: truthyNum_def split: option.splits)
  show ?thesis
  proof (cases "pid \<in> person_id ` set people")
    case True
    show ?thesis
      unfolding syncMember_valid[OF pid True]
      by (intro exI[of _ "Matched member pid"]) (simp add: g pid)
  next
    case False
    then have np: "\<forall>p \<in> set people. person_id p \<noteq> pid" by auto
    let ?w1 = "updateMember (member_id member) None w"
    let ?x = "member\<lparr>doorflowPersonId := None, updatedAt := timeAt w (clock w)\<rparr>"
    let ?out = "tryMatchMember member idx r cm False api tg (getMemberPhotoBase64 w member) ?w1"
    have g1: "getMember (store ?w1) (member_id member) = Some ?x"
      by (simp add: getMember_updateMember g)
    obtain e where e: "entries (fst ?out) = insert e (entries r)"
      "entryId e = member_id member"
      "(case e of
          Matched m' p \<Rightarrow> stored (store (snd ?out)) e
        | Created m' p \<Rightarrow> stored (store (snd ?out)) e
        | Unmatched m' \<Rightarrow> m' = member \<and> store (snd ?out) = store ?w1
        | Failed m' msg \<Rightarrow> m' = member \<and> store (snd ?out) = store ?w1)"
      using tryMatch_entry_live[OF g1] by blast
    have "stored (store (snd ?out)) e"
      using e(3) g1 \<open>truthyNum (doorflowPersonId member)\<close>
      by (cases e) (simp_all add: healedAs_def)
    then show ?thesis
      unfolding syncMember_stale[OF pid np] using e(1,2) by auto
  qed
qed

lemma getMember_distinct:
  "distinct (map member_id ms) \<Longrightarrow> m \<in> set ms \<Longrightarrow> getMember ms (member_id m) = Some m"
  unfolding getMember_def
  by (induction ms) (auto simp: image_iff)

lemma syncLoop_stored:
  assumes "distinct (map member_id ms)"
    and "\<forall>m \<in> set ms. getMember (store w) (member_id m) = Some m"
    and "\<forall>e \<in> entries r. entryId e \<notin> member_id ` set ms \<and> stored (store w) e"
  shows "\<forall>e \<in> entries (fst (syncLoop api people idx tg cm False ms (r, w))).
           stored (store (snd (syncLoop api people idx tg cm False ms (r, w)))) e"
  using assms
proof (induction ms arbitrary: r w)
  case Nil
  then show ?case by simp
next
  case (Cons m ms)
  let ?st = "syncMember api people idx tg cm False m (r, w)"
  obtain r1 w1 where st: "?st = (r1, w1)" by (cases ?st)
  have gm: "getMember (store w) (member_id m) = Some m" using Cons.prems(2) by simp
  obtain e where e: "entries r1 = insert e (entries r)" "entryId e = member_id m"
      "stored (store w1) e"
    using syncMember_entry_live[OF gm, of api people idx tg cm r] st by auto
  have other: "\<And>j. j \<noteq> member_id m \<Longrightarrow> getMember (store w1) j = getMember (store w) j"
    using syncMember_store_other[of _ m api people idx tg cm False r w] st by simp
  have notin: "member_id m \<notin> member_id ` set ms" using Cons.prems(1) by auto
  have p1: "distinct (map member_id ms)" using Cons.prems(1) by simp
  have p2: "\<forall>m' \<in> set ms. getMember (store w1) (member_id m') = Some m'"
  proof
    fix m' assume m': "m' \<in> set ms"
    then have "member_id m' \<noteq> member_id m" using notin by (metis imageI)
    then show "getMember (store w1) (member_id m') = Some m'"
      using other Cons.prems(2) m' by simp
  qed
  have p3: "\<forall>e' \<in> entries r1. entryId e' \<notin> member_id ` set ms \<and> stored (store w1) e'"
  proof
    fix e' assume "e' \<in> entries r1"
    then consider "e' = e" | "e' \<in> entries r" using e(1) by auto
    then show "entryId e' \<notin> member_id ` set ms \<and> stored (store w1) e'"
    proof cases
      case 1
      then show ?thesis using e notin by simp
    next
      case 2
      then have a: "entryId e' \<notin> member_id ` set (m # ms)" and b: "stored (store w) e'"
        using Cons.prems(3) by auto
      from a have "entryId e' \<noteq> member_id m" by auto
      then have "stored (store w1) e' = stored (store w) e'"
        by (intro stored_cong other)
      then show ?thesis using a b by auto
    qed
  qed
  show ?case
    using Cons.IH[OF p1 p2 p3] by (simp add: st)
qed

lemma POST_stored:
  assumes d: "distinct (map member_id (store w))"
    and run: "POST api cm False w = (Inr r, w')"
  shows "\<forall>e \<in> entries r. stored (store w') e"
proof (cases "listPeople api (remote w)")
  case (Inl err)
  then show ?thesis using run by (simp add: POST_failure)
next
  case (Inr people)
  let ?w0 = "w\<lparr>calls := calls w @ [ListPeople]\<rparr>"
  let ?out = "syncLoop api people (peopleByEmailOf people) (teamToGroupMapOf (teamStore w)) cm
                False (store w) (emptyResult, ?w0)"
  have rw: "r = fst ?out" "w' = snd ?out"
    using run POST_result[OF Inr, of cm False] by simp_all
  have "\<forall>e \<in> entries (fst ?out). stored (store (snd ?out)) e"
    by (rule syncLoop_stored) (simp_all add: d getMember_distinct)
  then show ?thesis unfolding rw .
qed

lemma tryMatch_errors_members:
  "fst ` set (errors (fst (tryMatchMember member idx r cm dr api tg photo w)))
     \<subseteq> insert member (fst ` set (errors r))"
  by (rule tryMatch_cases[where member=member and idx=idx and dr=dr and cm=cm and api=api
        and tg=tg and photo=photo and w=w])
     (auto simp: tryMatch_found_dry tryMatch_found_live tryMatch_unmatched tryMatch_create_dry
        tryMatch_create_ok tryMatch_create_fail)

lemma syncMember_errors_members:
  "fst ` set (errors (fst (syncMember api people idx tg cm dr member (r, w))))
     \<subseteq> insert member (fst ` set (errors r))"
  by (simp add: syncMember_def Let_def tryMatch_errors_members subset_insertI
        split: option.splits)

lemma syncLoop_errors_members:
  "fst ` set (errors (fst (syncLoop api people idx tg cm dr members st)))
     \<subseteq> fst ` set (errors (fst st)) \<union> set members"
proof (induction members arbitrary: st)
  case Nil
  then show ?case by simp
next
  case (Cons m ms)
  obtain r w where st: "st = (r, w)" by (cases st)
  have "fst ` set (errors (fst (syncLoop api people idx tg cm dr ms
                                  (syncMember api people idx tg cm dr m st))))
        \<subseteq> fst ` set (errors (fst (syncMember api people idx tg cm dr m st))) \<union> set ms"
    by (rule Cons.IH)
  also have "\<dots> \<subseteq> insert m (fst ` set (errors (fst st))) \<union> set ms"
    using syncMember_errors_members[of api people idx tg cm dr m r w] unfolding st by auto
  finally show ?case by auto
qed

lemma healedAs_link:
  "healedAs m x \<Longrightarrow> \<not> truthyNum (doorflowPersonId x)"
proof (cases "truthyNum (doorflowPersonId m)")
  case True
  assume "healedAs m x"
  then have "x\<lparr>updatedAt := updatedAt m\<rparr> = m\<lparr>doorflowPersonId := None\<rparr>"
    using True by (simp add: healedAs_def)
  then have "doorflowPersonId (x\<lparr>updatedAt := updatedAt m\<rparr>) = None" by simp
  then show ?thesis by (simp add: truthyNum_def)
next
  case False
  assume "healedAs m x"
  then show ?thesis using False by (simp add: healedAs_def)
qed





lemma createsFor_append [simp]:
  "createsFor (cs @ cs') = createsFor cs \<union> createsFor cs'"
  by (induction cs rule: createsFor.induct) auto

lemma pushUpdate_calls:
  "calls (pushUpdate api pid inp w) = calls w @ [UpdatePerson pid inp]"
  by (simp add: pushUpdate_frame)

lemma tryMatch_calls:
  "\<exists>cs. calls (snd (tryMatchMember member idx r cm dr api tg photo w)) = calls w @ cs \<and>
        createsFor cs \<subseteq> {Some (member_id member)}"
proof (rule tryMatch_cases[where member=member and idx=idx and dr=dr and cm=cm and api=api
        and tg=tg and photo=photo and w=w])
  fix p assume "lookupByEmail member idx = Some p" "dr"
  then show ?thesis by (intro exI[of _ "[]"]) (simp add: tryMatch_found_dry)
next
  fix p assume l: "lookupByEmail member idx = Some p" and "\<not> dr"
  then have eq: "tryMatchMember member idx r cm dr api tg photo w =
                 tryMatchMember member idx r cm False api tg photo w" by simp
  show ?thesis
    unfolding eq tryMatch_found_live[OF l]
    by (cases "getGroupIdsForMember member tg \<noteq> [] \<or> truthyStr photo")
       (simp_all add: Let_def pushUpdate_calls)
next
  assume "lookupByEmail member idx = None" "\<not> cm"
  then show ?thesis by (intro exI[of _ "[]"]) (simp add: tryMatch_unmatched)
next
  assume "lookupByEmail member idx = None" "cm" "dr"
  then show ?thesis by (intro exI[of _ "[]"]) (simp add: tryMatch_create_dry)
next
  fix newPerson r'
  assume l: "lookupByEmail member idx = None" and c: "cm" "\<not> dr"
    and cp: "createPerson api (createInput member (getGroupIdsForMember member tg) photo) (remote w)
              = (Inr newPerson, r')"
  show ?thesis
    using c tryMatch_create_ok[OF l cp, of r] by (simp add: createInput_def)
next
  fix err r'
  assume l: "lookupByEmail member idx = None" and c: "cm" "\<not> dr"
    and cp: "createPerson api (createInput member (getGroupIdsForMember member tg) photo) (remote w)
              = (Inl err, r')"
  show ?thesis
    using c tryMatch_create_fail[OF l cp, of r] by (simp add: createInput_def)
qed

lemma syncMember_calls:
  "\<exists>cs. calls (snd (syncMember api people idx tg cm dr member (r, w))) = calls w @ cs \<and>
        createsFor cs \<subseteq> (if validLink people member then {} else {Some (member_id member)})"
proof (cases "validLink people member")
  case True
  then obtain pid where pid: "doorflowPersonId member = Some pid" "pid \<noteq> 0"
      "pid \<in> person_id ` set people"
    by (auto simp: validLink_def split: option.splits)
  show ?thesis
    unfolding syncMember_valid[OF pid] using True by (intro exI[of _ "[]"]) simp
next
  case False
  have "\<exists>cs. calls (snd (syncMember api people idx tg cm dr member (r, w))) = calls w @ cs \<and>
        createsFor cs \<subseteq> {Some (member_id member)}"
  proof (cases "truthyNum (doorflowPersonId member)")
    case nt: False
    show ?thesis
      unfolding syncMember_unlinked[OF nt] by (rule tryMatch_calls)
  next
    case True
    then obtain pid where pid: "doorflowPersonId member = Some pid" "pid \<noteq> 0"
      by (auto simp: truthyNum_def split: option.splits)
    then have np: "\<forall>p \<in> set people. person_id p \<noteq> pid"
      using False by (auto simp: validLink_def)
    show ?thesis
      unfolding syncMember_stale[OF pid np]
      using tryMatch_calls[of member idx r cm dr api tg "getMemberPhotoBase64 w member"
          "if dr then w else updateMember (member_id member) None w"]
      by (cases dr) simp_all
  qed
  then show ?thesis using False by simp
qed





section \<open>Evaluation of the examples\<close>

lemmas example_defs =
  fakeApi_def mkMember_def mkTeam_def stamp_def mkWorld_def memberA_def memberB_def memberC_def
  person10_def teamT1_def teamT2_def teamT3_def staleA_def person100_def zeroB_def person0_def

lemmas route_defs =
  POST_def syncMember_def tryMatchMember_def lookupByEmail_def peopleByEmailOf_def newMap_def
  teamToGroupMapOf_def getGroupIdsForMember_def getMemberPhotoBase64_def updateMember_def
  createInput_def updateInput_def emptyInput_def emptyResult_def truthyStr_def truthyNum_def
  orNullStr_def orNullNum_def toLowerCase_def errorMessage_def Let_def

section \<open>Lemmas about a failed creation\<close>

lemma pushUpdate_world:
  "pushUpdate api pid inp w =
     w\<lparr>remote := snd (updatePerson api pid inp (remote w)),
       calls := calls w @ [UpdatePerson pid inp],
       console := console w @ (case fst (updatePerson api pid inp (remote w)) of
                                 Inl err \<Rightarrow> [SyncUpdateFailed pid err] | Inr u \<Rightarrow> [])\<rparr>"
  by (simp add: pushUpdate_def split: prod.splits sum.splits)

lemma insAt_append: "k \<le> length xs \<Longrightarrow> insAt k x (xs @ ys) = insAt k x xs @ ys"
  by (simp add: insAt_def)

lemma insAt_length: "insAt (length xs) x xs = xs @ [x]"
  by (simp add: insAt_def)

lemma syncLoop_append:
  "syncLoop api people idx tg cm dr (xs @ ys) st =
   syncLoop api people idx tg cm dr ys (syncLoop api people idx tg cm dr xs st)"
  by (induction xs arbitrary: st) simp_all

lemma updateMember_calls:
  "updateMember i v (w\<lparr>calls := c\<rparr>) = (updateMember i v w)\<lparr>calls := c\<rparr>"
  by (simp add: updateMember_def split: option.splits)

lemma updateMember_remote:
  "updateMember i v (w\<lparr>remote := d\<rparr>) = (updateMember i v w)\<lparr>remote := d\<rparr>"
  by (simp add: updateMember_def split: option.splits)

lemma tryMatch_insert:
  assumes k: "k \<le> length (errors r)" and j: "j \<le> length (calls w)"
  shows "tryMatchMember member idx (r\<lparr>errors := insAt k e (errors r)\<rparr>) cm dr api tg photo
           (w\<lparr>calls := insAt j c (calls w)\<rparr>) =
         ((fst (tryMatchMember member idx r cm dr api tg photo w))
            \<lparr>errors := insAt k e (errors (fst (tryMatchMember member idx r cm dr api tg photo w)))\<rparr>,
          (snd (tryMatchMember member idx r cm dr api tg photo w))
            \<lparr>calls := insAt j c (calls (snd (tryMatchMember member idx r cm dr api tg photo w)))\<rparr>)"
proof (rule tryMatch_cases[where member=member and idx=idx and dr=dr and cm=cm and api=api
        and tg=tg and photo=photo and w=w])
  fix p assume l: "lookupByEmail member idx = Some p" and "dr"
  then show ?thesis by (simp add: tryMatch_found_dry)
next
  fix p assume l: "lookupByEmail member idx = Some p" and "\<not> dr"
  then have d: "dr = False" by simp
  show ?thesis
    unfolding d tryMatch_found_live[OF l]
    using j by (simp add: Let_def pushUpdate_world updateMember_calls insAt_append)
next
  assume l: "lookupByEmail member idx = None" and "\<not> cm"
  then show ?thesis by (simp add: tryMatch_unmatched)
next
  assume l: "lookupByEmail member idx = None" and "cm" "dr"
  then show ?thesis by (simp add: tryMatch_create_dry)
next
  fix newPerson r'
  assume l: "lookupByEmail member idx = None" and c: "cm" "\<not> dr"
    and cp: "createPerson api (createInput member (getGroupIdsForMember member tg) photo) (remote w)
              = (Inr newPerson, r')"
  have cp': "createPerson api (createInput member (getGroupIdsForMember member tg) photo)
               (remote (w\<lparr>calls := insAt j c (calls w)\<rparr>)) = (Inr newPerson, r')"
    using cp by simp
  show ?thesis
    using c j
    by (simp add: tryMatch_create_ok[OF l cp] tryMatch_create_ok[OF l cp'] updateMember_calls
          updateMember_remote insAt_append)
next
  fix err r'
  assume l: "lookupByEmail member idx = None" and c: "cm" "\<not> dr"
    and cp: "createPerson api (createInput member (getGroupIdsForMember member tg) photo) (remote w)
              = (Inl err, r')"
  have cp': "createPerson api (createInput member (getGroupIdsForMember member tg) photo)
               (remote (w\<lparr>calls := insAt j c (calls w)\<rparr>)) = (Inl err, r')"
    using cp by simp
  show ?thesis
    using c j k
    by (simp add: tryMatch_create_fail[OF l cp] tryMatch_create_fail[OF l cp'] insAt_append)
qed

lemma tryMatch_errors_length:
  "length (errors r) \<le> length (errors (fst (tryMatchMember member idx r cm dr api tg photo w)))"
  by (rule tryMatch_cases[where member=member and idx=idx and dr=dr and cm=cm and api=api
        and tg=tg and photo=photo and w=w])
     (simp_all add: tryMatch_found_dry tryMatch_found_live tryMatch_unmatched tryMatch_create_dry
        tryMatch_create_ok tryMatch_create_fail)

lemma syncMember_errors_length:
  "length (errors r) \<le> length (errors (fst (syncMember api people idx tg cm dr member (r, w))))"
  by (simp add: syncMember_def Let_def tryMatch_errors_length split: option.splits)

lemma syncMember_calls_length:
  "length (calls w) \<le> length (calls (snd (syncMember api people idx tg cm dr member (r, w))))"
  using syncMember_calls[of api people idx tg cm dr member r w] by auto

lemma syncMember_insert:
  assumes k: "k \<le> length (errors r)" and j: "j \<le> length (calls w)"
  shows "syncMember api people idx tg cm dr member
           (r\<lparr>errors := insAt k e (errors r)\<rparr>, w\<lparr>calls := insAt j c (calls w)\<rparr>) =
         ((fst (syncMember api people idx tg cm dr member (r, w)))
            \<lparr>errors := insAt k e (errors (fst (syncMember api people idx tg cm dr member (r, w))))\<rparr>,
          (snd (syncMember api people idx tg cm dr member (r, w)))
            \<lparr>calls := insAt j c (calls (snd (syncMember api people idx tg cm dr member (r, w))))\<rparr>)"
proof (cases "validLink people member")
  case True
  then obtain pid where pid: "doorflowPersonId member = Some pid" "pid \<noteq> 0"
      "pid \<in> person_id ` set people"
    by (auto simp: validLink_def split: option.splits)
  show ?thesis unfolding syncMember_valid[OF pid] by simp
next
  case False
  show ?thesis
  proof (cases "truthyNum (doorflowPersonId member)")
    case nt: False
    have p: "getMemberPhotoBase64 (w\<lparr>calls := insAt j c (calls w)\<rparr>) member =
             getMemberPhotoBase64 w member"
      by (simp add: photo_frame)
    show ?thesis
      unfolding syncMember_unlinked[OF nt] p by (rule tryMatch_insert[OF k j])
  next
    case True
    then obtain pid where pid: "doorflowPersonId member = Some pid" "pid \<noteq> 0"
      by (auto simp: truthyNum_def split: option.splits)
    then have np: "\<forall>p \<in> set people. person_id p \<noteq> pid"
      using False by (auto simp: validLink_def)
    have p: "getMemberPhotoBase64 (w\<lparr>calls := insAt j c (calls w)\<rparr>) member =
             getMemberPhotoBase64 w member"
      by (simp add: photo_frame)
    show ?thesis
    proof (cases dr)
      case True
      show ?thesis
        unfolding syncMember_stale[OF pid np] p using True tryMatch_insert[OF k j] by simp
    next
      case False
      have j': "j \<le> length (calls (updateMember (member_id member) None w))" using j by simp
      show ?thesis
        unfolding syncMember_stale[OF pid np] p
        using False tryMatch_insert[OF k j', of member idx e cm dr api tg
            "getMemberPhotoBase64 w member" c]
        by (simp add: updateMember_calls)
    qed
  qed
qed

lemma syncLoop_insert:
  assumes "k \<le> length (errors r)" and "j \<le> length (calls w)"
  shows "syncLoop api people idx tg cm dr members
           (r\<lparr>errors := insAt k e (errors r)\<rparr>, w\<lparr>calls := insAt j c (calls w)\<rparr>) =
         ((fst (syncLoop api people idx tg cm dr members (r, w)))
            \<lparr>errors := insAt k e (errors (fst (syncLoop api people idx tg cm dr members (r, w))))\<rparr>,
          (snd (syncLoop api people idx tg cm dr members (r, w)))
            \<lparr>calls := insAt j c (calls (snd (syncLoop api people idx tg cm dr members (r, w))))\<rparr>)"
  using assms
proof (induction members arbitrary: r w)
  case Nil
  then show ?case by simp
next
  case (Cons m ms)
  let ?s = "syncMember api people idx tg cm dr m (r, w)"
  obtain r1 w1 where s: "?s = (r1, w1)" by (cases ?s)
  have k1: "k \<le> length (errors r1)"
    using Cons.prems(1) syncMember_errors_length[of r api people idx tg cm dr m w] s by simp
  have j1: "j \<le> length (calls w1)"
    using Cons.prems(2) syncMember_calls_length[of w api people idx tg cm dr m r] s by simp
  show ?case
    using Cons.IH[OF k1 j1] by (simp add: syncMember_insert[OF Cons.prems] s)
qed

lemma tryMatch_photos:
  "photos (snd (tryMatchMember member idx r cm dr api tg photo w)) = photos w"
  by (rule tryMatch_cases[where member=member and idx=idx and dr=dr and cm=cm and api=api
        and tg=tg and photo=photo and w=w])
     (simp_all add: tryMatch_found_dry tryMatch_found_live tryMatch_unmatched tryMatch_create_dry
        tryMatch_create_ok tryMatch_create_fail Let_def pushUpdate_frame)

lemma syncMember_photos:
  "photos (snd (syncMember api people idx tg cm dr member (r, w))) = photos w"
  by (simp add: syncMember_def Let_def tryMatch_photos split: option.splits)

lemma syncLoop_photos:
  "photos (snd (syncLoop api people idx tg cm dr members st)) = photos (snd st)"
proof (induction members arbitrary: st)
  case Nil
  then show ?case by simp
next
  case (Cons m ms)
  obtain r w where st: "st = (r, w)" by (cases st)
  show ?case by (simp add: Cons.IH st syncMember_photos)
qed

lemma first_member_created:
  assumes u1: "\<not> truthyNum (doorflowPersonId m1)"
    and n1: "matchBySpec m1 people = None"
    and c1: "createPerson api
               (createInput m1 (getGroupIdsForMember m1 tg) (getMemberPhotoBase64 w m1))
               (remote w) = (Inr p1, d1)"
  shows "syncMember api people (peopleByEmailOf people) tg True False m1
           (emptyResult, w\<lparr>calls := calls w @ [ListPeople]\<rparr>) =
         (emptyResult\<lparr>created := [(m1\<lparr>doorflowPersonId := Some (person_id p1)\<rparr>, person_id p1)]\<rparr>,
          updateMember (member_id m1) (Some (person_id p1))
            (w\<lparr>remote := d1,
               calls := calls w @ [ListPeople,
                 CreatePerson (createInput m1 (getGroupIdsForMember m1 tg)
                                 (getMemberPhotoBase64 w m1))]\<rparr>))"
proof -
  have l1: "lookupByEmail m1 (peopleByEmailOf people) = None"
    using n1 by (simp add: lookupByEmail_spec)
  show ?thesis
    unfolding syncMember_unlinked[OF u1]
    by (subst tryMatch_create_ok[OF l1, where newPerson = p1 and r' = d1])
       (simp_all add: c1 photo_frame emptyResult_def)
qed

lemma creation_failure_continues:
  assumes st: "store w = ms1 @ m # ms2"
    and lp: "listPeople api (remote w) = Inr people"
    and u: "\<not> truthyNum (doorflowPersonId m)"
    and n: "matchBySpec m people = None"
    and before: "syncLoop api people (peopleByEmailOf people) (teamToGroupMapOf (teamStore w))
                   True False ms1 (emptyResult, w\<lparr>calls := calls w @ [ListPeople]\<rparr>) = (r1, w1)"
    and fail: "createPerson api
                 (createInput m (getGroupIdsForMember m (teamToGroupMapOf (teamStore w)))
                    (getMemberPhotoBase64 w m)) (remote w1) = (Inl err, d')"
  shows "POST api True False w =
           (Inr (fst (syncLoop api people (peopleByEmailOf people) (teamToGroupMapOf (teamStore w))
                        True False ms2
                        (r1\<lparr>errors := errors r1 @ [(m, errorMessage err)]\<rparr>,
                         w1\<lparr>remote := d',
                            calls := calls w1 @
                              [CreatePerson
                                 (createInput m (getGroupIdsForMember m (teamToGroupMapOf (teamStore w)))
                                    (getMemberPhotoBase64 w m))]\<rparr>))),
            snd (syncLoop api people (peopleByEmailOf people) (teamToGroupMapOf (teamStore w))
                        True False ms2
                        (r1\<lparr>errors := errors r1 @ [(m, errorMessage err)]\<rparr>,
                         w1\<lparr>remote := d',
                            calls := calls w1 @
                              [CreatePerson
                                 (createInput m (getGroupIdsForMember m (teamToGroupMapOf (teamStore w)))
                                    (getMemberPhotoBase64 w m))]\<rparr>)))"
proof -
  let ?idx = "peopleByEmailOf people"
  let ?tg = "teamToGroupMapOf (teamStore w)"
  let ?w0 = "w\<lparr>calls := calls w @ [ListPeople]\<rparr>"
  have l: "lookupByEmail m ?idx = None" using n by (simp add: lookupByEmail_spec)
  have "photos w1 = photos ?w0"
    using syncLoop_photos[of api people ?idx ?tg True False ms1 "(emptyResult, ?w0)"] before
    by simp
  then have ph: "getMemberPhotoBase64 w1 m = getMemberPhotoBase64 w m"
    by (simp add: getMemberPhotoBase64_def)
  have step: "syncMember api people ?idx ?tg True False m (r1, w1) =
        (r1\<lparr>errors := errors r1 @ [(m, errorMessage err)]\<rparr>,
         w1\<lparr>remote := d',
            calls := calls w1 @
              [CreatePerson (createInput m (getGroupIdsForMember m ?tg) (getMemberPhotoBase64 w m))]\<rparr>)"
    unfolding syncMember_unlinked[OF u] ph
    by (rule tryMatch_create_fail[OF l fail])
  show ?thesis
    unfolding POST_result[OF lp] st syncLoop_append before syncLoop.simps step by simp
qed

lemma creation_failure_inserted:
  assumes st: "store w = ms1 @ m # ms2"
    and lp: "listPeople api (remote w) = Inr people"
    and u: "\<not> truthyNum (doorflowPersonId m)"
    and n: "matchBySpec m people = None"
    and before: "syncLoop api people (peopleByEmailOf people) (teamToGroupMapOf (teamStore w))
                   True False ms1 (emptyResult, w\<lparr>calls := calls w @ [ListPeople]\<rparr>) = (r1, w1)"
    and fail: "createPerson api
                 (createInput m (getGroupIdsForMember m (teamToGroupMapOf (teamStore w)))
                    (getMemberPhotoBase64 w m)) (remote w1) = (Inl err, remote w1)"
  shows "POST api True False w =
           (Inr ((fst (syncLoop api people (peopleByEmailOf people) (teamToGroupMapOf (teamStore w))
                         True False (ms1 @ ms2) (emptyResult, w\<lparr>calls := calls w @ [ListPeople]\<rparr>)))
                   \<lparr>errors := insAt (length (errors r1)) (m, errorMessage err)
                      (errors (fst (syncLoop api people (peopleByEmailOf people)
                         (teamToGroupMapOf (teamStore w)) True False (ms1 @ ms2)
                         (emptyResult, w\<lparr>calls := calls w @ [ListPeople]\<rparr>))))\<rparr>),
            (snd (syncLoop api people (peopleByEmailOf people) (teamToGroupMapOf (teamStore w))
                         True False (ms1 @ ms2) (emptyResult, w\<lparr>calls := calls w @ [ListPeople]\<rparr>)))
              \<lparr>calls := insAt (length (calls w1))
                 (CreatePerson (createInput m (getGroupIdsForMember m (teamToGroupMapOf (teamStore w)))
                                  (getMemberPhotoBase64 w m)))
                 (calls (snd (syncLoop api people (peopleByEmailOf people)
                         (teamToGroupMapOf (teamStore w)) True False (ms1 @ ms2)
                         (emptyResult, w\<lparr>calls := calls w @ [ListPeople]\<rparr>))))\<rparr>)"
proof -
  let ?idx = "peopleByEmailOf people"
  let ?tg = "teamToGroupMapOf (teamStore w)"
  let ?e = "(m, errorMessage err)"
  let ?c = "CreatePerson (createInput m (getGroupIdsForMember m ?tg) (getMemberPhotoBase64 w m))"
  have s: "(r1\<lparr>errors := errors r1 @ [?e]\<rparr>,
            w1\<lparr>remote := remote w1, calls := calls w1 @ [?c]\<rparr>) =
           (r1\<lparr>errors := insAt (length (errors r1)) ?e (errors r1)\<rparr>,
            w1\<lparr>calls := insAt (length (calls w1)) ?c (calls w1)\<rparr>)"
    by (simp add: insAt_length)
  show ?thesis
    unfolding creation_failure_continues[OF st lp u n before fail] s
      syncLoop_insert[OF le_refl le_refl] syncLoop_append before
    by simp
qed

lemma three_member_run:
  assumes st: "store w = [m1, m2, m3]"
    and ids: "distinct [member_id m1, member_id m2, member_id m3]"
    and u1: "\<not> truthyNum (doorflowPersonId m1)"
    and u2: "\<not> truthyNum (doorflowPersonId m2)"
    and u3: "\<not> truthyNum (doorflowPersonId m3)"
    and lp: "listPeople api (remote w) = Inr people"
    and n1: "matchBySpec m1 people = None"
    and n2: "matchBySpec m2 people = None"
    and n3: "matchBySpec m3 people = None"
    and c1: "createPerson api
               (createInput m1 (getGroupIdsForMember m1 (teamToGroupMapOf (teamStore w)))
                  (getMemberPhotoBase64 w m1)) (remote w) = (Inr p1, d1)"
    and c2: "createPerson api
               (createInput m2 (getGroupIdsForMember m2 (teamToGroupMapOf (teamStore w)))
                  (getMemberPhotoBase64 w m2)) d1 = (Inl err, d2)"
    and c3: "createPerson api
               (createInput m3 (getGroupIdsForMember m3 (teamToGroupMapOf (teamStore w)))
                  (getMemberPhotoBase64 w m3)) d2 = (Inr p3, d3)"
  shows "fst (POST api True False w) =
           Inr \<lparr>matched = [],
                created = [(m1\<lparr>doorflowPersonId := Some (person_id p1)\<rparr>, person_id p1),
                           (m3\<lparr>doorflowPersonId := Some (person_id p3)\<rparr>, person_id p3)],
                unmatched = [],
                errors = [(m2, errorMessage err)]\<rparr> \<and>
         map doorflowPersonId (store (snd (POST api True False w))) =
           [Some (person_id p1), doorflowPersonId m2, Some (person_id p3)] \<and>
         remote (snd (POST api True False w)) = d3"
proof -
  let ?idx = "peopleByEmailOf people"
  let ?tg = "teamToGroupMapOf (teamStore w)"
  let ?w0 = "w\<lparr>calls := calls w @ [ListPeople]\<rparr>"
  let ?i1 = "createInput m1 (getGroupIdsForMember m1 ?tg) (getMemberPhotoBase64 w m1)"
  let ?i2 = "createInput m2 (getGroupIdsForMember m2 ?tg) (getMemberPhotoBase64 w m2)"
  let ?i3 = "createInput m3 (getGroupIdsForMember m3 ?tg) (getMemberPhotoBase64 w m3)"
  let ?r1 = "emptyResult\<lparr>created := [(m1\<lparr>doorflowPersonId := Some (person_id p1)\<rparr>, person_id p1)]\<rparr>"
  let ?w1 = "updateMember (member_id m1) (Some (person_id p1))
               (?w0\<lparr>remote := d1, calls := calls ?w0 @ [CreatePerson ?i1]\<rparr>)"
  let ?r2 = "?r1\<lparr>errors := [(m2, errorMessage err)]\<rparr>"
  let ?w2 = "?w1\<lparr>remote := d2, calls := calls ?w1 @ [CreatePerson ?i2]\<rparr>"
  let ?r3 = "?r2\<lparr>created := created ?r2 @
               [(m3\<lparr>doorflowPersonId := Some (person_id p3)\<rparr>, person_id p3)]\<rparr>"
  let ?w3 = "updateMember (member_id m3) (Some (person_id p3))
               (?w2\<lparr>remote := d3, calls := calls ?w2 @ [CreatePerson ?i3]\<rparr>)"
  have l1: "lookupByEmail m1 ?idx = None" and l2: "lookupByEmail m2 ?idx = None"
    and l3: "lookupByEmail m3 ?idx = None"
    using n1 n2 n3 by (simp_all add: lookupByEmail_spec)
  have s1: "syncMember api people ?idx ?tg True False m1 (emptyResult, ?w0) = (?r1, ?w1)"
    unfolding syncMember_unlinked[OF u1]
    by (subst tryMatch_create_ok[OF l1, where newPerson = p1 and r' = d1])
       (simp_all add: c1 photo_frame emptyResult_def)
  have s2: "syncMember api people ?idx ?tg True False m2 (?r1, ?w1) = (?r2, ?w2)"
    unfolding syncMember_unlinked[OF u2]
    by (subst tryMatch_create_fail[OF l2, where err = err and r' = d2])
       (simp_all add: c2 photo_frame emptyResult_def)
  have s3: "syncMember api people ?idx ?tg True False m3 (?r2, ?w2) = (?r3, ?w3)"
    unfolding syncMember_unlinked[OF u3]
    by (subst tryMatch_create_ok[OF l3, where newPerson = p3 and r' = d3])
       (simp_all add: c3 photo_frame emptyResult_def)
  have run: "POST api True False w = (Inr ?r3, ?w3)"
    unfolding POST_result[OF lp] st syncLoop.simps s1 s2 s3 by simp
  have links: "map doorflowPersonId (store ?w3) =
           [Some (person_id p1), doorflowPersonId m2, Some (person_id p3)]"
    using ids by (simp add: store_updateMember st)
  show ?thesis
    unfolding run using links by (simp add: emptyResult_def)
qed

lemma syncMember_create_fail:
  assumes nv: "\<not> validLink people m"
    and n: "matchBySpec m people = None"
    and fail: "createPerson api (createInput m (getGroupIdsForMember m tg)
                 (getMemberPhotoBase64 w m)) (remote w) = (Inl err, d')"
  shows "syncMember api people (peopleByEmailOf people) tg True False m (r, w) =
         (r\<lparr>errors := errors r @ [(m, errorMessage err)]\<rparr>,
          (if truthyNum (doorflowPersonId m) then updateMember (member_id m) None w else w)
            \<lparr>remote := d',
             calls := calls w @
               [CreatePerson (createInput m (getGroupIdsForMember m tg)
                                (getMemberPhotoBase64 w m))]\<rparr>)"
proof (cases "truthyNum (doorflowPersonId m)")
  case False
  have l: "lookupByEmail m (peopleByEmailOf people) = None"
    using n by (simp add: lookupByEmail_spec)
  show ?thesis
    unfolding syncMember_unlinked[OF False]
    using False tryMatch_create_fail[OF l fail] by simp
next
  case True
  then obtain pid where pid: "doorflowPersonId m = Some pid" "pid \<noteq> 0"
    by (auto simp: truthyNum_def split: option.splits)
  then have np: "\<forall>p \<in> set people. person_id p \<noteq> pid"
    using nv by (auto simp: validLink_def)
  have l: "lookupByEmail m (peopleByEmailOf people) = None"
    using n by (simp add: lookupByEmail_spec)
  have fail': "createPerson api (createInput m (getGroupIdsForMember m tg)
                 (getMemberPhotoBase64 w m)) (remote (updateMember (member_id m) None w))
               = (Inl err, d')"
    using fail by simp
  show ?thesis
    unfolding syncMember_stale[OF pid np]
    using True tryMatch_create_fail[OF l fail'] by simp
qed

lemma failed_creation_continues:
  assumes st: "store w = ms1 @ m # ms2"
    and lp: "listPeople api (remote w) = Inr people"
    and nv: "\<not> validLink people m"
    and n: "matchBySpec m people = None"
    and before: "syncLoop api people (peopleByEmailOf people) (teamToGroupMapOf (teamStore w))
                   True False ms1 (emptyResult, w\<lparr>calls := calls w @ [ListPeople]\<rparr>) = (r1, w1)"
    and fail: "createPerson api
                 (createInput m (getGroupIdsForMember m (teamToGroupMapOf (teamStore w)))
                    (getMemberPhotoBase64 w m)) (remote w1) = (Inl err, d')"
  shows "POST api True False w =
           (Inr (fst (syncLoop api people (peopleByEmailOf people) (teamToGroupMapOf (teamStore w))
                        True False ms2
                        (r1\<lparr>errors := errors r1 @ [(m, errorMessage err)]\<rparr>,
                         (if truthyNum (doorflowPersonId m)
                          then updateMember (member_id m) None w1 else w1)
                           \<lparr>remote := d',
                            calls := calls w1 @
                              [CreatePerson
                                 (createInput m (getGroupIdsForMember m (teamToGroupMapOf (teamStore w)))
                                    (getMemberPhotoBase64 w m))]\<rparr>))),
            snd (syncLoop api people (peopleByEmailOf people) (teamToGroupMapOf (teamStore w))
                        True False ms2
                        (r1\<lparr>errors := errors r1 @ [(m, errorMessage err)]\<rparr>,
                         (if truthyNum (doorflowPersonId m)
                          then updateMember (member_id m) None w1 else w1)
                           \<lparr>remote := d',
                            calls := calls w1 @
                              [CreatePerson
                                 (createInput m (getGroupIdsForMember m (teamToGroupMapOf (teamStore w)))
                                    (getMemberPhotoBase64 w m))]\<rparr>)))"
proof -
  let ?idx = "peopleByEmailOf people"
  let ?tg = "teamToGroupMapOf (teamStore w)"
  let ?w0 = "w\<lparr>calls := calls w @ [ListPeople]\<rparr>"
  have "photos w1 = photos ?w0"
    using syncLoop_photos[of api people ?idx ?tg True False ms1 "(emptyResult, ?w0)"] before
    by simp
  then have ph: "getMemberPhotoBase64 w1 m = getMemberPhotoBase64 w m"
    by (simp add: getMemberPhotoBase64_def)
  have fail': "createPerson api (createInput m (getGroupIdsForMember m ?tg)
                 (getMemberPhotoBase64 w1 m)) (remote w1) = (Inl err, d')"
    using fail ph by simp
  have step: "syncMember api people ?idx ?tg True False m (r1, w1) =
        (r1\<lparr>errors := errors r1 @ [(m, errorMessage err)]\<rparr>,
         (if truthyNum (doorflowPersonId m) then updateMember (member_id m) None w1 else w1)
           \<lparr>remote := d',
            calls := calls w1 @
              [CreatePerson (createInput m (getGroupIdsForMember m ?tg) (getMemberPhotoBase64 w m))]\<rparr>)"
    using syncMember_create_fail[OF nv n fail', of r1] unfolding ph .
  show ?thesis
    unfolding POST_result[OF lp] st syncLoop_append before syncLoop.simps step by simp
qed

lemma three_member_scenario:
  assumes st: "store w = [m1, m2, m3]"
    and ids: "distinct [member_id m1, member_id m2, member_id m3]"
    and u1: "\<not> truthyNum (doorflowPersonId m1)"
    and nv: "\<not> validLink people m2"
    and u3: "\<not> truthyNum (doorflowPersonId m3)"
    and lp: "listPeople api (remote w) = Inr people"
    and n1: "matchBySpec m1 people = None"
    and n2: "matchBySpec m2 people = None"
    and n3: "matchBySpec m3 people = None"
    and c1: "createPerson api
               (createInput m1 (getGroupIdsForMember m1 (teamToGroupMapOf (teamStore w)))
                  (getMemberPhotoBase64 w m1)) (remote w) = (Inr p1, d1)"
    and c2: "createPerson api
               (createInput m2 (getGroupIdsForMember m2 (teamToGroupMapOf (teamStore w)))
                  (getMemberPhotoBase64 w m2)) d1 = (Inl err, d2)"
    and c3: "createPerson api
               (createInput m3 (getGroupIdsForMember m3 (teamToGroupMapOf (teamStore w)))
                  (getMemberPhotoBase64 w m3)) d2 = (Inr p3, d3)"
  shows "fst (POST api True False w) =
           Inr \<lparr>matched = [],
                created = [(m1\<lparr>doorflowPersonId := Some (person_id p1)\<rparr>, person_id p1),
                           (m3\<lparr>doorflowPersonId := Some (person_id p3)\<rparr>, person_id p3)],
                unmatched = [],
                errors = [(m2, errorMessage err)]\<rparr> \<and>
         map doorflowPersonId (store (snd (POST api True False w))) =
           [Some (person_id p1),
            if truthyNum (doorflowPersonId m2) then None else doorflowPersonId m2,
            Some (person_id p3)] \<and>
         remote (snd (POST api True False w)) = d3"
proof (cases "truthyNum (doorflowPersonId m2)")
  case False
  show ?thesis
    using three_member_run[OF st ids u1 False u3 lp n1 n2 n3 c1 c2 c3] False by simp
next
  case True
  let ?idx = "peopleByEmailOf people"
  let ?tg = "teamToGroupMapOf (teamStore w)"
  let ?w0 = "w\<lparr>calls := calls w @ [ListPeople]\<rparr>"
  let ?i1 = "createInput m1 (getGroupIdsForMember m1 ?tg) (getMemberPhotoBase64 w m1)"
  let ?i2 = "createInput m2 (getGroupIdsForMember m2 ?tg) (getMemberPhotoBase64 w m2)"
  let ?i3 = "createInput m3 (getGroupIdsForMember m3 ?tg) (getMemberPhotoBase64 w m3)"
  let ?r1 = "emptyResult\<lparr>created := [(m1\<lparr>doorflowPersonId := Some (person_id p1)\<rparr>, person_id p1)]\<rparr>"
  let ?w1 = "updateMember (member_id m1) (Some (person_id p1))
               (?w0\<lparr>remote := d1, calls := calls ?w0 @ [CreatePerson ?i1]\<rparr>)"
  let ?r2 = "?r1\<lparr>errors := [(m2, errorMessage err)]\<rparr>"
  let ?w2 = "(updateMember (member_id m2) None ?w1)
               \<lparr>remote := d2, calls := calls ?w1 @ [CreatePerson ?i2]\<rparr>"
  let ?r3 = "?r2\<lparr>created := created ?r2 @
               [(m3\<lparr>doorflowPersonId := Some (person_id p3)\<rparr>, person_id p3)]\<rparr>"
  let ?w3 = "updateMember (member_id m3) (Some (person_id p3))
               (?w2\<lparr>remote := d3, calls := calls ?w2 @ [CreatePerson ?i3]\<rparr>)"
  have l1: "lookupByEmail m1 ?idx = None" and l3: "lookupByEmail m3 ?idx = None"
    using n1 n3 by (simp_all add: lookupByEmail_spec)
  have s1: "syncMember api people ?idx ?tg True False m1 (emptyResult, ?w0) = (?r1, ?w1)"
    unfolding syncMember_unlinked[OF u1]
    by (subst tryMatch_create_ok[OF l1, where newPerson = p1 and r' = d1])
       (simp_all add: c1 photo_frame emptyResult_def)
  have c2': "createPerson api (createInput m2 (getGroupIdsForMember m2 ?tg)
               (getMemberPhotoBase64 ?w1 m2)) (remote ?w1) = (Inl err, d2)"
    using c2 by (simp add: photo_frame)
  have s2: "syncMember api people ?idx ?tg True False m2 (?r1, ?w1) = (?r2, ?w2)"
    using syncMember_create_fail[OF nv n2 c2', of ?r1] True
    by (simp add: photo_frame emptyResult_def)
  have s3: "syncMember api people ?idx ?tg True False m3 (?r2, ?w2) = (?r3, ?w3)"
    unfolding syncMember_unlinked[OF u3]
    by (subst tryMatch_create_ok[OF l3, where newPerson = p3 and r' = d3])
       (simp_all add: c3 photo_frame emptyResult_def)
  have run: "POST api True False w = (Inr ?r3, ?w3)"
    unfolding POST_result[OF lp] st syncLoop.simps s1 s2 s3 by simp
  have links: "map doorflowPersonId (store ?w3) = [Some (person_id p1), None, Some (person_id p3)]"
    using ids by (simp add: store_updateMember st)
  show ?thesis
    unfolding run using links True by (simp add: emptyResult_def)
qed

section \<open>Lemmas about repeated runs\<close>

lemma matchedKeys_simps [simp]:
  "matchedKeys (r\<lparr>matched := matched r @ [(m, p)]\<rparr>) = matchedKeys r @ [(member_id m, p)]"
  "matchedKeys emptyResult = []"
  by (simp_all add: matchedKeys_def emptyResult_def)




lemma matchBySpec_cong:
  assumes "email x = email m"
  shows "matchBySpec x people = matchBySpec m people"
proof -
  have "emailMatches x = emailMatches m"
    using assms by (auto simp: fun_eq_iff emailMatches_def split: option.splits)
  then show ?thesis by (simp add: matchBySpec_def)
qed

lemma matchKey_cong:
  "member_id x = member_id m \<Longrightarrow> email x = email m \<Longrightarrow>
   doorflowPersonId x = doorflowPersonId m \<Longrightarrow> matchKey people x = matchKey people m"
  by (simp add: matchKey_def matchBySpec_cong[of x m] split: option.splits)

lemma matchBySpec_in:
  "matchBySpec m people = Some p \<Longrightarrow> p \<in> set people"
proof -
  assume a: "matchBySpec m people = Some p"
  let ?ps = "filter (emailMatches m) people"
  from a have ne: "?ps \<noteq> []" and p: "p = last ?ps"
    by (auto simp: matchBySpec_def Let_def split: if_splits)
  from ne have "last ?ps \<in> set ?ps" by (rule last_in_set)
  then show ?thesis using p by simp
qed


















section \<open>The claims\<close>

text \<open>
  C1. Every run that returns a result places every loaded member in exactly one of the four
  buckets: the members reported over \<open>matched\<close>, \<open>created\<close>, \<open>unmatched\<close> and \<open>errors\<close>,
  with the link field erased (a run sets it on the members it reports as matched or created),
  are exactly the members loaded from the store, each as often as it was loaded. This holds
  for every combination of \<open>createMissing\<close> and \<open>dryRun\<close>.
\<close>

theorem bucket_exclusivity:
  assumes "fst (POST api createMissing dryRun w) = Inr r"
  shows "mset (map unlinked (bucketMembers r)) = mset (map unlinked (store w))"
proof (cases "listPeople api (remote w)")
  case (Inl err)
  then show ?thesis using assms by (simp add: POST_failure)
next
  case (Inr people)
  have "r = fst (syncLoop api people (peopleByEmailOf people) (teamToGroupMapOf (teamStore w))
                   createMissing dryRun (store w) (emptyResult, w\<lparr>calls := calls w @ [ListPeople]\<rparr>))"
    using assms POST_result[OF Inr, of createMissing dryRun] by simp
  moreover have "bucketMembers emptyResult = []"
    by (simp add: bucketMembers_def emptyResult_def)
  ultimately show ?thesis
    by (simp add: syncLoop_bucketMembers)
qed

theorem bucket_exclusivity_witness:
  "fst (POST (fakeApi [''b''] []) True False
          (mkWorld [memberA, memberB, memberC] [teamT1] [person10])) =
     Inr \<lparr>matched = [(memberA\<lparr>doorflowPersonId := Some 10\<rparr>, 10)],
          created = [(memberC\<lparr>doorflowPersonId := Some 100\<rparr>, 100)],
          unmatched = [],
          errors = [(memberB, ''remote error'')]\<rparr> \<and>
   mset (map unlinked [memberA\<lparr>doorflowPersonId := Some 10\<rparr>,
                       memberC\<lparr>doorflowPersonId := Some 100\<rparr>, memberB]) =
   mset (map unlinked [memberA, memberB, memberC])"
proof -
  have run: "fst (POST (fakeApi [''b''] []) True False
          (mkWorld [memberA, memberB, memberC] [teamT1] [person10])) =
     Inr \<lparr>matched = [(memberA\<lparr>doorflowPersonId := Some 10\<rparr>, 10)],
          created = [(memberC\<lparr>doorflowPersonId := Some 100\<rparr>, 100)],
          unmatched = [],
          errors = [(memberB, ''remote error'')]\<rparr>"
    by (simp add: route_defs example_defs)
  from bucket_exclusivity[OF run] run show ?thesis
    by (simp add: bucketMembers_def mkWorld_def)
qed

text \<open>
  C2. A run with \<open>dryRun = true\<close> changes neither the member store nor the remote
  directory, whatever \<open>createMissing\<close> is and whatever the buckets report: the store, the
  remote state and the clock (read only by store writes) are as before, and the only SDK call
  issued is the listing, so no \<open>createPerson\<close> and no \<open>updatePerson\<close>.
\<close>

theorem dry_run_no_op:
  "store (snd (POST api createMissing True w)) = store w \<and>
   remote (snd (POST api createMissing True w)) = remote w \<and>
   clock (snd (POST api createMissing True w)) = clock w \<and>
   calls (snd (POST api createMissing True w)) = calls w @ [ListPeople]"
proof (cases "listPeople api (remote w)")
  case (Inl err)
  then show ?thesis by (simp add: POST_failure)
next
  case (Inr people)
  then show ?thesis by (simp add: POST_result syncLoop_dry_world)
qed

theorem dry_run_no_op_witness:
  "fst (POST (fakeApi [] []) True True (mkWorld [memberA, memberB] [teamT1] [person10])) =
     Inr \<lparr>matched = [(memberA\<lparr>doorflowPersonId := Some 10\<rparr>, 10)],
          created = [(memberB, 0)], unmatched = [], errors = []\<rparr> \<and>
   store (snd (POST (fakeApi [] []) True True (mkWorld [memberA, memberB] [teamT1] [person10])))
     = [memberA, memberB] \<and>
   remote (snd (POST (fakeApi [] []) True True (mkWorld [memberA, memberB] [teamT1] [person10])))
     = \<lparr>dir_people = [person10], dir_nextId = 100\<rparr> \<and>
   calls (snd (POST (fakeApi [] []) True True (mkWorld [memberA, memberB] [teamT1] [person10])))
     = [ListPeople]"
proof -
  have "fst (POST (fakeApi [] []) True True (mkWorld [memberA, memberB] [teamT1] [person10])) =
     Inr \<lparr>matched = [(memberA\<lparr>doorflowPersonId := Some 10\<rparr>, 10)],
          created = [(memberB, 0)], unmatched = [], errors = []\<rparr>"
    by (simp add: route_defs example_defs)
  with dry_run_no_op[of "fakeApi [] []" True "mkWorld [memberA, memberB] [teamT1] [person10]"]
  show ?thesis by (simp add: mkWorld_def)
qed

text \<open>
  C3, as amended. A member whose \<open>doorflowPersonId\<close> is a non-zero id (the route tests the
  field for truthiness, so a stored \<open>0\<close> counts as no link) that is the id of no person in
  the fetched list is healed in the same run. Unless the run is a dry run, the link of its
  stored record is cleared. The member is then handled like an unlinked member: the world
  after its step, the bucket it lands in, the person id and the error message reported are
  those obtained for the same member with no link, processed after the unlink. (Only the
  snapshot reported in \<open>unmatched\<close>, \<open>errors\<close> and the dry-run \<open>created\<close> still shows
  the stale id, since the route reports the member as it was loaded.)
\<close>

theorem stale_link_self_heal:
  assumes "doorflowPersonId member = Some pid" and "pid \<noteq> 0"
    and "\<forall>p \<in> set doorflowPeople. person_id p \<noteq> pid"
  shows "let w1 = (if dryRun then w else updateMember (member_id member) None w);
             stale = syncMember api doorflowPeople peopleByEmail teamToGroupMap createMissing
                       dryRun member (results, w);
             fresh = syncMember api doorflowPeople peopleByEmail teamToGroupMap createMissing
                       dryRun (unlinked member) (results, w1)
         in getMember (store w1) (member_id member) =
              (if dryRun then getMember (store w) (member_id member)
               else map_option (\<lambda>m. m\<lparr>doorflowPersonId := None, updatedAt := timeAt w (clock w)\<rparr>)
                      (getMember (store w) (member_id member))) \<and>
            snd stale = snd fresh \<and>
            forgetLinks (fst stale) = forgetLinks (fst fresh)"
proof -
  have u: "\<not> truthyNum (doorflowPersonId (unlinked member))"
    by (simp add: unlinked_def truthyNum_def)
  show ?thesis
    unfolding Let_def syncMember_stale[OF assms] syncMember_unlinked[OF u]
    by (simp add: tryMatch_unlinked getMember_updateMember)
qed

theorem stale_link_self_heal_witness:
  "doorflowPersonId (memberA\<lparr>doorflowPersonId := Some 77\<rparr>) = Some 77 \<and> (77 :: int) \<noteq> 0 \<and>
   person_id person10 \<noteq> 77 \<and>
   syncMember (fakeApi [] []) [person10] (peopleByEmailOf [person10]) (teamToGroupMapOf [teamT1])
       True False (memberA\<lparr>doorflowPersonId := Some 77\<rparr>)
       (emptyResult, mkWorld [memberA\<lparr>doorflowPersonId := Some 77\<rparr>] [teamT1] [person10]) =
   syncMember (fakeApi [] []) [person10] (peopleByEmailOf [person10]) (teamToGroupMapOf [teamT1])
       True False memberA
       (emptyResult,
        (mkWorld [memberA\<lparr>updatedAt := stamp 0\<rparr>] [teamT1] [person10])\<lparr>clock := 1\<rparr>)"
proof -
  have h1: "doorflowPersonId (memberA\<lparr>doorflowPersonId := Some 77\<rparr>) = Some 77" by simp
  have h2: "(77 :: int) \<noteq> 0" by simp
  have h3: "\<forall>p \<in> set [person10]. person_id p \<noteq> 77" by (simp add: person10_def)
  have "unlinked (memberA\<lparr>doorflowPersonId := Some 77\<rparr>) = memberA"
    by (simp add: unlinked_def memberA_def mkMember_def)
  moreover have "updateMember (member_id (memberA\<lparr>doorflowPersonId := Some 77\<rparr>)) None
          (mkWorld [memberA\<lparr>doorflowPersonId := Some 77\<rparr>] [teamT1] [person10]) =
        (mkWorld [memberA\<lparr>updatedAt := stamp 0\<rparr>] [teamT1] [person10])\<lparr>clock := 1\<rparr>"
    by (simp add: updateMember_def mkWorld_def memberA_def mkMember_def)
  ultimately show ?thesis
    using stale_link_self_heal[OF h1 h2 h3, of False
        "mkWorld [memberA\<lparr>doorflowPersonId := Some 77\<rparr>] [teamT1] [person10]"
        "fakeApi [] []" "peopleByEmailOf [person10]" "teamToGroupMapOf [teamT1]" True emptyResult]
      h1 h2
    apply (simp add: Let_def)
    apply (simp add: route_defs example_defs forgetLinks_def unlinked_def)
    done
qed

text \<open>
  The claim C3 as stated, for every member whose \<open>doorflowPersonId\<close> is set, fails for
  the id \<open>0\<close>: the route takes such a member for unlinked, so a live run leaves the
  stored \<open>0\<close> in place although no fetched person has that id.
\<close>

theorem stale_zero_link_counterexample:
  "doorflowPersonId zeroB = Some 0 \<and>
   find (\<lambda>p. Some (person_id p) = doorflowPersonId zeroB) [person10] = None \<and>
   POST (fakeApi [] []) False False (mkWorld [zeroB] [teamT1] [person10]) =
     (Inr (emptyResult\<lparr>unmatched := [zeroB]\<rparr>),
      (mkWorld [zeroB] [teamT1] [person10])\<lparr>calls := [ListPeople]\<rparr>) \<and>
   map doorflowPersonId (store ((mkWorld [zeroB] [teamT1] [person10])\<lparr>calls := [ListPeople]\<rparr>)) =
     [Some 0]"
  by (simp add: route_defs example_defs)

text \<open>
  C4. Matching by email. The person that \<open>tryMatchMember\<close> finds in the index built from
  the fetched list is the one the matching rule names: a person matches when it has an email
  (a missing or empty email never matches) and that email equals the member's email after
  lower-casing both; if several people match, the latest in the fetched list is taken. The
  member is appended to \<open>matched\<close>, linked to that person, exactly when such a person
  exists.
\<close>

theorem email_matching:
  "lookupByEmail member (peopleByEmailOf doorflowPeople) = matchBySpec member doorflowPeople \<and>
   matched (fst (tryMatchMember member (peopleByEmailOf doorflowPeople) results createMissing
                   dryRun api teamToGroupMap photoBase64 w)) =
     (case matchBySpec member doorflowPeople of
        Some p \<Rightarrow> matched results @
                   [(member\<lparr>doorflowPersonId := Some (person_id p)\<rparr>, person_id p)]
      | None \<Rightarrow> matched results)"
  by (simp add: tryMatch_matched lookupByEmail_spec)

theorem email_matching_witness:
  "matchBySpec (mkMember ''m'' ''Alice@Example.com'' [] None)
     [\<lparr>person_id = 1, person_email = Some ''alice@example.com''\<rparr>,
      \<lparr>person_id = 2, person_email = None\<rparr>,
      \<lparr>person_id = 3, person_email = Some ''ALICE@example.COM''\<rparr>,
      \<lparr>person_id = 4, person_email = Some ''''\<rparr>,
      \<lparr>person_id = 5, person_email = Some ''bob@example.com''\<rparr>]
     = Some \<lparr>person_id = 3, person_email = Some ''ALICE@example.COM''\<rparr> \<and>
   lookupByEmail (mkMember ''m'' ''Alice@Example.com'' [] None)
     (peopleByEmailOf
       [\<lparr>person_id = 1, person_email = Some ''alice@example.com''\<rparr>,
        \<lparr>person_id = 2, person_email = None\<rparr>,
        \<lparr>person_id = 3, person_email = Some ''ALICE@example.COM''\<rparr>,
        \<lparr>person_id = 4, person_email = Some ''''\<rparr>,
        \<lparr>person_id = 5, person_email = Some ''bob@example.com''\<rparr>])
     = Some \<lparr>person_id = 3, person_email = Some ''ALICE@example.COM''\<rparr> \<and>
   matchBySpec (mkMember ''m'' '''' [] None)
     [\<lparr>person_id = 2, person_email = None\<rparr>, \<lparr>person_id = 4, person_email = Some ''''\<rparr>]
     = None"
proof -
  have "matchBySpec (mkMember ''m'' ''Alice@Example.com'' [] None)
     [\<lparr>person_id = 1, person_email = Some ''alice@example.com''\<rparr>,
      \<lparr>person_id = 2, person_email = None\<rparr>,
      \<lparr>person_id = 3, person_email = Some ''ALICE@example.COM''\<rparr>,
      \<lparr>person_id = 4, person_email = Some ''''\<rparr>,
      \<lparr>person_id = 5, person_email = Some ''bob@example.com''\<rparr>]
     = Some \<lparr>person_id = 3, person_email = Some ''ALICE@example.COM''\<rparr>"
    by (simp add: matchBySpec_def emailMatches_def mkMember_def toLowerCase_def)
  moreover have "matchBySpec (mkMember ''m'' '''' [] None)
     [\<lparr>person_id = 2, person_email = None\<rparr>, \<lparr>person_id = 4, person_email = Some ''''\<rparr>]
     = None"
    by (simp add: matchBySpec_def emailMatches_def mkMember_def)
  ultimately show ?thesis
    using email_matching[THEN conjunct1, of "mkMember ''m'' ''Alice@Example.com'' [] None"
        "[\<lparr>person_id = 1, person_email = Some ''alice@example.com''\<rparr>,
          \<lparr>person_id = 2, person_email = None\<rparr>,
          \<lparr>person_id = 3, person_email = Some ''ALICE@example.COM''\<rparr>,
          \<lparr>person_id = 4, person_email = Some ''''\<rparr>,
          \<lparr>person_id = 5, person_email = Some ''bob@example.com''\<rparr>]"]
    by simp
qed

text \<open>
  C7. Resolving a member's teams to remote groups. For every team-to-group map,
  \<open>getGroupIdsForMember\<close> returns exactly the groups that the map assigns to the member's
  team ids; team ids without an entry contribute nothing. \<open>getDoorflowGroupIdsForTeams\<close>
  returns exactly the group ids of the stored teams that are among the given team ids and have
  a non-null \<open>doorflowGroupId\<close>. For the map that \<open>POST\<close> builds from a team store with
  unique team ids the two agree: the member resolves to the mapped groups of its teams, and
  unmapped or unknown team ids are dropped.
\<close>

theorem team_group_resolution:
  "set (getGroupIdsForMember member teamToGroupMap) =
     {g. \<exists>t \<in> set (teamIds member). teamToGroupMap t = Some g} \<and>
   set (getDoorflowGroupIdsForTeams teams (teamIds member)) =
     {g. \<exists>t \<in> set teams. team_id t \<in> set (teamIds member) \<and> doorflowGroupId t = Some g} \<and>
   (distinct (map team_id teams) \<longrightarrow>
      set (getGroupIdsForMember member (teamToGroupMapOf teams)) =
        {g. \<exists>t \<in> set teams. team_id t \<in> set (teamIds member) \<and> doorflowGroupId t = Some g})"
proof (intro conjI impI)
  show "set (getGroupIdsForMember member teamToGroupMap) =
     {g. \<exists>t \<in> set (teamIds member). teamToGroupMap t = Some g}"
    by (simp add: getGroupIdsForMember_def groupIdsLoop_set)
  show "set (getDoorflowGroupIdsForTeams teams (teamIds member)) =
     {g. \<exists>t \<in> set teams. team_id t \<in> set (teamIds member) \<and> doorflowGroupId t = Some g}"
    by (rule set_getDoorflowGroupIdsForTeams)
  assume "distinct (map team_id teams)"
  then show "set (getGroupIdsForMember member (teamToGroupMapOf teams)) =
        {g. \<exists>t \<in> set teams. team_id t \<in> set (teamIds member) \<and> doorflowGroupId t = Some g}"
    by (auto simp: getGroupIdsForMember_def groupIdsLoop_set teamToGroupMapOf_Some)
qed

theorem team_group_resolution_witness:
  "distinct (map team_id [teamT1, teamT2, teamT3]) \<and>
   getGroupIdsForMember memberC (teamToGroupMapOf [teamT1, teamT2, teamT3]) = [5, 7] \<and>
   getDoorflowGroupIdsForTeams [teamT1, teamT2, teamT3] (teamIds memberC) = [5, 7] \<and>
   {g. \<exists>t \<in> set [teamT1, teamT2, teamT3].
         team_id t \<in> set (teamIds memberC) \<and> doorflowGroupId t = Some g} = set [5, 7] \<and>
   getGroupIdsForMember (mkMember ''d'' ''d@x.com'' [''t3'', ''t9''] None)
     (teamToGroupMapOf [teamT1, teamT2, teamT3]) = []"
proof -
  have d: "distinct (map team_id [teamT1, teamT2, teamT3])"
    by (simp add: example_defs)
  have a: "getGroupIdsForMember memberC (teamToGroupMapOf [teamT1, teamT2, teamT3]) = [5, 7]"
    by (simp add: getGroupIdsForMember_def teamToGroupMapOf_def example_defs)
  have b: "getDoorflowGroupIdsForTeams [teamT1, teamT2, teamT3] (teamIds memberC) = [5, 7]"
    by (simp add: getDoorflowGroupIdsForTeams_def getTeamsByIds_def example_defs)
  have c: "getGroupIdsForMember (mkMember ''d'' ''d@x.com'' [''t3'', ''t9''] None)
     (teamToGroupMapOf [teamT1, teamT2, teamT3]) = []"
    by (simp add: getGroupIdsForMember_def teamToGroupMapOf_def example_defs)
  have "set (getGroupIdsForMember memberC (teamToGroupMapOf [teamT1, teamT2, teamT3])) =
        {g. \<exists>t \<in> set [teamT1, teamT2, teamT3].
           team_id t \<in> set (teamIds memberC) \<and> doorflowGroupId t = Some g}"
    using team_group_resolution[of memberC "teamToGroupMapOf [teamT1, teamT2, teamT3]"
        "[teamT1, teamT2, teamT3]"] d
    by blast
  then have e: "{g. \<exists>t \<in> set [teamT1, teamT2, teamT3].
         team_id t \<in> set (teamIds memberC) \<and> doorflowGroupId t = Some g} = set [5, 7]"
    unfolding a by (rule sym)
  show ?thesis by (intro conjI d a b c e)
qed

text \<open>
  C9, as amended. A member whose stored \<open>doorflowPersonId\<close> is a non-zero id (the route
  tests the field with \<open>if (member.doorflowPersonId)\<close>, so a stored \<open>0\<close> counts as not
  linked) and is the id of a person in the fetched list is reported as matched with that same
  id, as it was loaded, and its step leaves the world as it was: no store write, no remote
  call, no log line, in dry-run and in live mode alike. In a run over a store that holds the
  member it is in the \<open>matched\<close> bucket of the result.
\<close>

theorem valid_link_reaffirmed:
  assumes "doorflowPersonId member = Some pid" and "pid \<noteq> 0"
    and "pid \<in> person_id ` set doorflowPeople"
  shows "syncMember api doorflowPeople peopleByEmail teamToGroupMap createMissing dryRun member
           (results, w) =
         (results\<lparr>matched := matched results @ [(member, pid)]\<rparr>, w) \<and>
         (member \<in> set (store w0) \<and> listPeople api (remote w0) = Inr doorflowPeople \<longrightarrow>
            (\<exists>r. fst (POST api createMissing dryRun w0) = Inr r \<and> (member, pid) \<in> set (matched r)))"
proof (intro conjI impI)
  show "syncMember api doorflowPeople peopleByEmail teamToGroupMap createMissing dryRun member
           (results, w) =
         (results\<lparr>matched := matched results @ [(member, pid)]\<rparr>, w)"
    by (rule syncMember_valid[OF assms])
  assume a: "member \<in> set (store w0) \<and> listPeople api (remote w0) = Inr doorflowPeople"
  then have "(member, pid) \<in> set (matched (fst (syncLoop api doorflowPeople
                  (peopleByEmailOf doorflowPeople) (teamToGroupMapOf (teamStore w0))
                  createMissing dryRun (store w0)
                  (emptyResult, w0\<lparr>calls := calls w0 @ [ListPeople]\<rparr>))))"
    by (intro syncLoop_matched_valid[OF assms]) simp
  then show "\<exists>r. fst (POST api createMissing dryRun w0) = Inr r \<and> (member, pid) \<in> set (matched r)"
    using a by (simp add: POST_result)
qed

theorem valid_link_reaffirmed_witness:
  "doorflowPersonId (memberB\<lparr>doorflowPersonId := Some 10\<rparr>) = Some 10 \<and> (10 :: int) \<noteq> 0 \<and>
   10 \<in> person_id ` set [person10] \<and>
   syncMember (fakeApi [] []) [person10] (peopleByEmailOf [person10]) (teamToGroupMapOf [teamT1])
       True False (memberB\<lparr>doorflowPersonId := Some 10\<rparr>)
       (emptyResult, mkWorld [memberB\<lparr>doorflowPersonId := Some 10\<rparr>] [teamT1] [person10]) =
     (emptyResult\<lparr>matched := [(memberB\<lparr>doorflowPersonId := Some 10\<rparr>, 10)]\<rparr>,
      mkWorld [memberB\<lparr>doorflowPersonId := Some 10\<rparr>] [teamT1] [person10]) \<and>
   fst (POST (fakeApi [] []) True False
          (mkWorld [memberB\<lparr>doorflowPersonId := Some 10\<rparr>] [teamT1] [person10])) =
     Inr (emptyResult\<lparr>matched := [(memberB\<lparr>doorflowPersonId := Some 10\<rparr>, 10)]\<rparr>)"
proof -
  have h1: "doorflowPersonId (memberB\<lparr>doorflowPersonId := Some 10\<rparr>) = Some 10" by simp
  have h2: "(10 :: int) \<noteq> 0" by simp
  have h3: "10 \<in> person_id ` set [person10]" by (simp add: person10_def)
  have run: "fst (POST (fakeApi [] []) True False
          (mkWorld [memberB\<lparr>doorflowPersonId := Some 10\<rparr>] [teamT1] [person10])) =
     Inr (emptyResult\<lparr>matched := [(memberB\<lparr>doorflowPersonId := Some 10\<rparr>, 10)]\<rparr>)"
    by (simp add: route_defs example_defs)
  from valid_link_reaffirmed[OF h1 h2 h3, of "fakeApi [] []" "peopleByEmailOf [person10]"
      "teamToGroupMapOf [teamT1]" True False emptyResult
      "mkWorld [memberB\<lparr>doorflowPersonId := Some 10\<rparr>] [teamT1] [person10]"]
    h1 h2 h3 run
  show ?thesis by (simp add: emptyResult_def)
qed

text \<open>
  The claim C9 as stated, for every member whose stored id is the id of a fetched person,
  fails for the id \<open>0\<close>: a member stored with \<open>doorflowPersonId = 0\<close> is taken for
  unlinked although the fetched list holds a person with id \<open>0\<close>; in a live run with
  \<open>createMissing\<close> a new remote person is created for it and its stored link is rewritten.
\<close>

theorem valid_zero_link_counterexample:
  "doorflowPersonId zeroB = Some 0 \<and>
   0 \<in> person_id ` set [person0] \<and>
   POST (fakeApi [] []) True False (mkWorld [zeroB] [teamT1] [person0]) =
     (Inr (emptyResult\<lparr>created := [(zeroB\<lparr>doorflowPersonId := Some 100\<rparr>, 100)]\<rparr>),
      (mkWorld [zeroB\<lparr>doorflowPersonId := Some 100, updatedAt := stamp 0\<rparr>] [teamT1] [])
        \<lparr>remote := \<lparr>dir_people = [person0, person100], dir_nextId = 101\<rparr>,
         clock := 1,
         calls := [ListPeople, CreatePerson (createInput zeroB [] None)]\<rparr>)"
  by (simp add: route_defs example_defs)

text \<open>
  C5. Isolation of a failed creation. In a live run with \<open>createMissing\<close>, let \<open>m\<close> be a
  loaded member without a valid link that matches no remote person by email, let \<open>(r1, w1)\<close>
  be the state of the run after the members before \<open>m\<close>, and let the \<open>createPerson\<close> call
  for \<open>m\<close> fail with \<open>err\<close>. The message \<open>msg\<close> is the message of \<open>err\<close> if \<open>err\<close> is an
  \<open>Error\<close>, and \<open>Failed to create person\<close> otherwise.

  \<^item> The step for \<open>m\<close> appends \<open>(m, msg)\<close> to \<open>errors\<close> and changes no other bucket; in the
    world it records the call and the remote state the failed call has left, and clears a
    stale link of \<open>m\<close>. The run goes on with the members after \<open>m\<close> from that state: the
    failure does not end it.
  \<^item> If \<open>m\<close> was loaded without a link and the failed call has left the remote state as it
    was, the run is the run over the other members alone, with that one entry inserted in
    \<open>errors\<close> and that one call inserted in the call log: no other member is processed
    differently.
  \<^item> In a run over three members with distinct ids, where the first and the third are unlinked,
    match no one by email and are created, and the creation fails for the second: the first
    and the third member are reported in \<open>created\<close> with their new person ids, the second
    alone in \<open>errors\<close> with \<open>msg\<close>, and the store holds the new links of the first and the
    third member.
\<close>

theorem isolated_creation_failure:
  assumes st: "store w = ms1 @ m # ms2"
    and lp: "listPeople api (remote w) = Inr people"
    and nv: "\<not> validLink people m"
    and n: "matchBySpec m people = None"
    and before: "syncLoop api people (peopleByEmailOf people) (teamToGroupMapOf (teamStore w))
                   True False ms1 (emptyResult, w\<lparr>calls := calls w @ [ListPeople]\<rparr>) = (r1, w1)"
    and fail: "createPerson api
                 (createInput m (getGroupIdsForMember m (teamToGroupMapOf (teamStore w)))
                    (getMemberPhotoBase64 w m)) (remote w1) = (Inl err, d')"
  shows "let idx = peopleByEmailOf people;
             tg = teamToGroupMapOf (teamStore w);
             inp = (\<lambda>x. createInput x (getGroupIdsForMember x tg) (getMemberPhotoBase64 w x));
             msg = (case err of
                      ResponseError status text \<Rightarrow> text
                    | OtherError text \<Rightarrow> text
                    | NotAnError \<Rightarrow> ''Failed to create person'');
             run = POST api True False w;
             wm = (if truthyNum (doorflowPersonId m)
                   then updateMember (member_id m) None w1 else w1);
             rest = syncLoop api people idx tg True False ms2
                      (r1\<lparr>errors := errors r1 @ [(m, msg)]\<rparr>,
                       wm\<lparr>remote := d', calls := calls w1 @ [CreatePerson (inp m)]\<rparr>);
             others = syncLoop api people idx tg True False (ms1 @ ms2)
                        (emptyResult, w\<lparr>calls := calls w @ [ListPeople]\<rparr>)
         in run = (Inr (fst rest), snd rest) \<and>
            (d' = remote w1 \<and> \<not> truthyNum (doorflowPersonId m) \<longrightarrow>
               run = (Inr ((fst others)\<lparr>errors := insAt (length (errors r1)) (m, msg)
                                                     (errors (fst others))\<rparr>),
                      (snd others)\<lparr>calls := insAt (length (calls w1)) (CreatePerson (inp m))
                                                (calls (snd others))\<rparr>)) \<and>
            (ms1 = [m1] \<and> ms2 = [m3] \<and>
             distinct [member_id m1, member_id m, member_id m3] \<and>
             \<not> truthyNum (doorflowPersonId m1) \<and> \<not> truthyNum (doorflowPersonId m3) \<and>
             matchBySpec m1 people = None \<and> matchBySpec m3 people = None \<and>
             createPerson api (inp m1) (remote w) = (Inr p1, d1) \<and>
             createPerson api (inp m3) d' = (Inr p3, d3) \<longrightarrow>
               fst run =
                 Inr \<lparr>matched = [],
                      created = [(m1\<lparr>doorflowPersonId := Some (person_id p1)\<rparr>, person_id p1),
                                 (m3\<lparr>doorflowPersonId := Some (person_id p3)\<rparr>, person_id p3)],
                      unmatched = [],
                      errors = [(m, msg)]\<rparr> \<and>
               map doorflowPersonId (store (snd run)) =
                 [Some (person_id p1),
                  if truthyNum (doorflowPersonId m) then None else doorflowPersonId m,
                  Some (person_id p3)] \<and>
               remote (snd run) = d3)"
proof -
  let ?tg = "teamToGroupMapOf (teamStore w)"
  have msg: "(case err of ResponseError status text \<Rightarrow> text | OtherError text \<Rightarrow> text
              | NotAnError \<Rightarrow> ''Failed to create person'') = errorMessage err"
    by (simp add: errorMessage_def)
  have a: "POST api True False w =
      (Inr (fst (syncLoop api people (peopleByEmailOf people) ?tg True False ms2
                   (r1\<lparr>errors := errors r1 @ [(m, errorMessage err)]\<rparr>,
                    (if truthyNum (doorflowPersonId m)
                     then updateMember (member_id m) None w1 else w1)
                      \<lparr>remote := d',
                       calls := calls w1 @
                         [CreatePerson (createInput m (getGroupIdsForMember m ?tg)
                                          (getMemberPhotoBase64 w m))]\<rparr>))),
       snd (syncLoop api people (peopleByEmailOf people) ?tg True False ms2
                   (r1\<lparr>errors := errors r1 @ [(m, errorMessage err)]\<rparr>,
                    (if truthyNum (doorflowPersonId m)
                     then updateMember (member_id m) None w1 else w1)
                      \<lparr>remote := d',
                       calls := calls w1 @
                         [CreatePerson (createInput m (getGroupIdsForMember m ?tg)
                                          (getMemberPhotoBase64 w m))]\<rparr>)))"
    by (rule failed_creation_continues[OF st lp nv n before fail])
  have b: "d' = remote w1 \<Longrightarrow> \<not> truthyNum (doorflowPersonId m) \<Longrightarrow> POST api True False w =
           (Inr ((fst (syncLoop api people (peopleByEmailOf people) ?tg
                         True False (ms1 @ ms2) (emptyResult, w\<lparr>calls := calls w @ [ListPeople]\<rparr>)))
                   \<lparr>errors := insAt (length (errors r1)) (m, errorMessage err)
                      (errors (fst (syncLoop api people (peopleByEmailOf people)
                         ?tg True False (ms1 @ ms2)
                         (emptyResult, w\<lparr>calls := calls w @ [ListPeople]\<rparr>))))\<rparr>),
            (snd (syncLoop api people (peopleByEmailOf people) ?tg
                         True False (ms1 @ ms2) (emptyResult, w\<lparr>calls := calls w @ [ListPeople]\<rparr>)))
              \<lparr>calls := insAt (length (calls w1))
                 (CreatePerson (createInput m (getGroupIdsForMember m ?tg)
                                  (getMemberPhotoBase64 w m)))
                 (calls (snd (syncLoop api people (peopleByEmailOf people)
                         ?tg True False (ms1 @ ms2)
                         (emptyResult, w\<lparr>calls := calls w @ [ListPeople]\<rparr>))))\<rparr>)"
    using creation_failure_inserted[OF st lp _ n before] fail by simp
  have c: "fst (POST api True False w) =
                 Inr \<lparr>matched = [],
                      created = [(m1\<lparr>doorflowPersonId := Some (person_id p1)\<rparr>, person_id p1),
                                 (m3\<lparr>doorflowPersonId := Some (person_id p3)\<rparr>, person_id p3)],
                      unmatched = [],
                      errors = [(m, errorMessage err)]\<rparr> \<and>
               map doorflowPersonId (store (snd (POST api True False w))) =
                 [Some (person_id p1),
                  if truthyNum (doorflowPersonId m) then None else doorflowPersonId m,
                  Some (person_id p3)] \<and>
               remote (snd (POST api True False w)) = d3"
    if h: "ms1 = [m1]" "ms2 = [m3]" "distinct [member_id m1, member_id m, member_id m3]"
      "\<not> truthyNum (doorflowPersonId m1)" "\<not> truthyNum (doorflowPersonId m3)"
      "matchBySpec m1 people = None" "matchBySpec m3 people = None"
      "createPerson api (createInput m1 (getGroupIdsForMember m1 ?tg) (getMemberPhotoBase64 w m1))
         (remote w) = (Inr p1, d1)"
      "createPerson api (createInput m3 (getGroupIdsForMember m3 ?tg) (getMemberPhotoBase64 w m3))
         d' = (Inr p3, d3)"
  proof -
    have "remote w1 = d1"
      using before first_member_created[OF h(4) h(6) h(8)] unfolding h(1) by auto
    then have c2: "createPerson api
                 (createInput m (getGroupIdsForMember m ?tg) (getMemberPhotoBase64 w m)) d1
                 = (Inl err, d')"
      using fail by simp
    have st3: "store w = [m1, m, m3]" using st h(1,2) by simp
    show ?thesis
      by (rule three_member_scenario[OF st3 h(3) h(4) nv h(5) lp h(6) n h(7) h(8) c2 h(9)])
  qed
  show ?thesis
    unfolding Let_def msg
    apply (intro conjI)
    subgoal by (rule a)
    subgoal by (rule impI, elim conjE, (rule b; assumption))
    subgoal by (rule impI, elim conjE, (rule c; assumption))
    done
qed


theorem isolated_creation_failure_witness:
  "store (mkWorld [memberA, memberB, memberC] [teamT1] []) = [memberA] @ memberB # [memberC] \<and>
   distinct [member_id memberA, member_id memberB, member_id memberC] \<and>
   \<not> validLink [] memberB \<and>
   syncLoop (fakeApi [''b''] []) [] (peopleByEmailOf [])
       (teamToGroupMapOf (teamStore (mkWorld [memberA, memberB, memberC] [teamT1] [])))
       True False [memberA]
       (emptyResult, (mkWorld [memberA, memberB, memberC] [teamT1] [])\<lparr>calls := [ListPeople]\<rparr>) =
     (emptyResult\<lparr>created := [(memberA\<lparr>doorflowPersonId := Some 100\<rparr>, 100)]\<rparr>, worldAfterA) \<and>
   createPerson (fakeApi [''b''] []) (createInput memberB [] None) (remote worldAfterA) =
     (Inl (OtherError ''remote error''), remote worldAfterA) \<and>
   fst (POST (fakeApi [''b''] []) True False (mkWorld [memberA, memberB, memberC] [teamT1] [])) =
     Inr \<lparr>matched = [],
          created = [(memberA\<lparr>doorflowPersonId := Some 100\<rparr>, 100),
                     (memberC\<lparr>doorflowPersonId := Some 101\<rparr>, 101)],
          unmatched = [],
          errors = [(memberB, ''remote error'')]\<rparr> \<and>
   map doorflowPersonId
     (store (snd (POST (fakeApi [''b''] []) True False
                    (mkWorld [memberA, memberB, memberC] [teamT1] [])))) =
     [Some 100, None, Some 101]"
proof -
  let ?w = "mkWorld [memberA, memberB, memberC] [teamT1] []"
  let ?api = "fakeApi [''b''] []"
  let ?tg = "teamToGroupMapOf (teamStore ?w)"
  let ?p3 = "\<lparr>person_id = 101, person_email = Some ''c@x.com''\<rparr>"
  let ?d1 = "\<lparr>dir_people = [person100a], dir_nextId = 101\<rparr>"
  let ?d3 = "\<lparr>dir_people = [person100a, ?p3], dir_nextId = 102\<rparr>"
  let ?r1 = "emptyResult\<lparr>created := [(memberA\<lparr>doorflowPersonId := Some 100\<rparr>, 100)]\<rparr>"
  have st: "store ?w = [memberA] @ memberB # [memberC]" by (simp add: mkWorld_def)
  have ids: "distinct [member_id memberA, member_id memberB, member_id memberC]"
    by (simp add: example_defs)
  have lp: "listPeople ?api (remote ?w) = Inr []" by (simp add: example_defs)
  have nv: "\<not> validLink [] memberB" by (simp add: validLink_def example_defs)
  have u: "\<not> truthyNum (doorflowPersonId memberB)"
    and u1: "\<not> truthyNum (doorflowPersonId memberA)"
    and u3: "\<not> truthyNum (doorflowPersonId memberC)"
    by (simp_all add: truthyNum_def example_defs)
  have n: "matchBySpec memberB [] = None" and n1: "matchBySpec memberA [] = None"
    and n3: "matchBySpec memberC [] = None"
    by (simp_all add: matchBySpec_def)
  have before: "syncLoop ?api [] (peopleByEmailOf []) ?tg True False [memberA]
                  (emptyResult, ?w\<lparr>calls := calls ?w @ [ListPeople]\<rparr>) = (?r1, worldAfterA)"
    by (simp add: route_defs example_defs worldAfterA_def person100a_def)
  have fail: "createPerson ?api
                (createInput memberB (getGroupIdsForMember memberB ?tg)
                   (getMemberPhotoBase64 ?w memberB)) (remote worldAfterA) =
              (Inl (OtherError ''remote error''), remote worldAfterA)"
    by (simp add: route_defs example_defs worldAfterA_def person100a_def)
  have c1: "createPerson ?api
              (createInput memberA (getGroupIdsForMember memberA ?tg)
                 (getMemberPhotoBase64 ?w memberA)) (remote ?w) = (Inr person100a, ?d1)"
    by (simp add: route_defs example_defs person100a_def)
  have c3: "createPerson ?api
              (createInput memberC (getGroupIdsForMember memberC ?tg)
                 (getMemberPhotoBase64 ?w memberC)) (remote worldAfterA) = (Inr ?p3, ?d3)"
    by (simp add: route_defs example_defs worldAfterA_def person100a_def)
  have inB: "createInput memberB (getGroupIdsForMember memberB ?tg)
               (getMemberPhotoBase64 ?w memberB) = createInput memberB [] None"
    by (simp add: route_defs example_defs)
  have b0: "calls ?w = []" by (simp add: mkWorld_def)
  note t = isolated_creation_failure[where ?m1.0 = memberA and ?m3.0 = memberC
        and ?p1.0 = person100a and ?d1.0 = ?d1 and ?p3.0 = ?p3 and ?d3.0 = ?d3,
      OF st lp nv n before fail, unfolded Let_def, THEN conjunct2, THEN conjunct2, rule_format]
  have "fst (POST ?api True False ?w) =
     Inr \<lparr>matched = [],
          created = [(memberA\<lparr>doorflowPersonId := Some (person_id person100a)\<rparr>,
                      person_id person100a),
                     (memberC\<lparr>doorflowPersonId := Some (person_id ?p3)\<rparr>, person_id ?p3)],
          unmatched = [],
          errors = [(memberB, case OtherError ''remote error'' of
                                ResponseError status text \<Rightarrow> text
                              | OtherError text \<Rightarrow> text
                              | NotAnError \<Rightarrow> ''Failed to create person'')]\<rparr> \<and>
     map doorflowPersonId (store (snd (POST ?api True False ?w))) =
       [Some (person_id person100a),
        if truthyNum (doorflowPersonId memberB) then None else doorflowPersonId memberB,
        Some (person_id ?p3)] \<and>
     remote (snd (POST ?api True False ?w)) = ?d3"
    by (rule t) (intro conjI refl ids u1 u3 n1 n3 c1 c3)
  then show ?thesis
    using st ids nv before fail inB b0
    by (simp add: person100a_def memberB_def mkMember_def truthyNum_def)
qed

text \<open>
  C6. An email match in live mode. The member is appended to \<open>matched\<close> and to no other
  bucket, and the link is written to its stored record. An \<open>updatePerson\<close> call is issued
  exactly when the member has at least one derived group id or a photo; its input carries the
  group ids (if any) and the photo (if any) and nothing else, and the world after the step is
  the world after the link was stored, with the remote state that the call has left, the call
  in the call log and, if the call failed, one line on the console. Whether the call succeeds
  or fails, the result is the same. Without group id and photo the world after the step is
  the world after the link was stored.
\<close>

theorem match_update_best_effort:
  assumes "lookupByEmail member peopleByEmail = Some p"
  shows "let pid = person_id p;
             groupIds = getGroupIdsForMember member teamToGroupMap;
             inp = updateInput groupIds photoBase64;
             w1 = updateMember (member_id member) (Some pid) w;
             out = tryMatchMember member peopleByEmail results createMissing False api
                     teamToGroupMap photoBase64 w
         in fst out = results\<lparr>matched := matched results @
                                 [(member\<lparr>doorflowPersonId := Some pid\<rparr>, pid)]\<rparr> \<and>
            store (snd out) = store w1 \<and>
            getMember (store w1) (member_id member) =
              map_option (\<lambda>m. m\<lparr>doorflowPersonId := Some pid, updatedAt := timeAt w (clock w)\<rparr>)
                (getMember (store w) (member_id member)) \<and>
            inp = emptyInput\<lparr>in_groupIds := (if groupIds = [] then None else Some groupIds),
                              in_imageBase64 := (if truthyStr photoBase64 then photoBase64 else None)\<rparr> \<and>
            (if groupIds \<noteq> [] \<or> truthyStr photoBase64
             then snd out =
                    w1\<lparr>remote := snd (updatePerson api pid inp (remote w)),
                       calls := calls w @ [UpdatePerson pid inp],
                       console :=
                         console w @ (case fst (updatePerson api pid inp (remote w)) of
                                        Inl err \<Rightarrow> [SyncUpdateFailed pid err] | Inr u \<Rightarrow> [])\<rparr> \<and>
                  remote (snd out) = snd (updatePerson api pid inp (remote w)) \<and>
                  calls (snd out) = calls w @ [UpdatePerson pid inp] \<and>
                  console (snd out) =
                    console w @ (case fst (updatePerson api pid inp (remote w)) of
                                   Inl err \<Rightarrow> [SyncUpdateFailed pid err] | Inr u \<Rightarrow> [])
             else snd out = w1 \<and> calls (snd out) = calls w \<and> remote (snd out) = remote w \<and>
                  console (snd out) = console w)"
  unfolding Let_def tryMatch_found_live[OF assms]
  by (simp add: pushUpdate_world getMember_updateMember updateInput_def orNullStr_def)

theorem match_update_best_effort_witness:
  "lookupByEmail memberA (peopleByEmailOf [person10]) = Some person10 \<and>
   tryMatchMember memberA (peopleByEmailOf [person10]) emptyResult True False (fakeApi [] [10])
       (teamToGroupMapOf [teamT1]) None (mkWorld [memberA] [teamT1] [person10]) =
     (emptyResult\<lparr>matched := [(memberA\<lparr>doorflowPersonId := Some 10\<rparr>, 10)]\<rparr>,
      (mkWorld [memberA\<lparr>doorflowPersonId := Some 10, updatedAt := stamp 0\<rparr>] [teamT1] [person10])
        \<lparr>clock := 1,
         calls := [UpdatePerson 10 (emptyInput\<lparr>in_groupIds := Some [5]\<rparr>)],
         console := [SyncUpdateFailed 10 (ResponseError 500 ''Response returned an error code'')]\<rparr>) \<and>
   tryMatchMember memberB (peopleByEmailOf [\<lparr>person_id = 11, person_email = Some ''b@x.com''\<rparr>])
       emptyResult True False (fakeApi [] [])
       (teamToGroupMapOf [teamT1]) None
       (mkWorld [memberB] [teamT1] [\<lparr>person_id = 11, person_email = Some ''b@x.com''\<rparr>]) =
     (emptyResult\<lparr>matched := [(memberB\<lparr>doorflowPersonId := Some 11\<rparr>, 11)]\<rparr>,
      (mkWorld [memberB\<lparr>doorflowPersonId := Some 11, updatedAt := stamp 0\<rparr>] [teamT1]
         [\<lparr>person_id = 11, person_email = Some ''b@x.com''\<rparr>])\<lparr>clock := 1\<rparr>)"
proof -
  have h: "lookupByEmail memberA (peopleByEmailOf [person10]) = Some person10"
    by (simp add: route_defs example_defs)
  have b: "tryMatchMember memberB (peopleByEmailOf [\<lparr>person_id = 11, person_email = Some ''b@x.com''\<rparr>])
       emptyResult True False (fakeApi [] [])
       (teamToGroupMapOf [teamT1]) None
       (mkWorld [memberB] [teamT1] [\<lparr>person_id = 11, person_email = Some ''b@x.com''\<rparr>]) =
     (emptyResult\<lparr>matched := [(memberB\<lparr>doorflowPersonId := Some 11\<rparr>, 11)]\<rparr>,
      (mkWorld [memberB\<lparr>doorflowPersonId := Some 11, updatedAt := stamp 0\<rparr>] [teamT1]
         [\<lparr>person_id = 11, person_email = Some ''b@x.com''\<rparr>])\<lparr>clock := 1\<rparr>)"
    by (simp add: route_defs example_defs)
  have a: "tryMatchMember memberA (peopleByEmailOf [person10]) emptyResult True False (fakeApi [] [10])
       (teamToGroupMapOf [teamT1]) None (mkWorld [memberA] [teamT1] [person10]) =
     (emptyResult\<lparr>matched := [(memberA\<lparr>doorflowPersonId := Some 10\<rparr>, 10)]\<rparr>,
      (mkWorld [memberA\<lparr>doorflowPersonId := Some 10, updatedAt := stamp 0\<rparr>] [teamT1] [person10])
        \<lparr>clock := 1,
         calls := [UpdatePerson 10 (emptyInput\<lparr>in_groupIds := Some [5]\<rparr>)],
         console := [SyncUpdateFailed 10 (ResponseError 500 ''Response returned an error code'')]\<rparr>)"
    by (simp add: route_defs example_defs)
  from match_update_best_effort[OF h, of "teamToGroupMapOf [teamT1]" None
      "mkWorld [memberA] [teamT1] [person10]" emptyResult True "fakeApi [] [10]"]
  have "fst (tryMatchMember memberA (peopleByEmailOf [person10]) emptyResult True False
               (fakeApi [] [10]) (teamToGroupMapOf [teamT1]) None
               (mkWorld [memberA] [teamT1] [person10])) =
        emptyResult\<lparr>matched := [(memberA\<lparr>doorflowPersonId := Some 10\<rparr>, 10)]\<rparr>"
    by (simp add: Let_def person10_def emptyResult_def)
  with h a b show ?thesis by simp
qed

text \<open>
  C10, as amended. When the creation of a remote person fails for a member in a live run
  over a store with unique member ids, the member reported in \<open>errors\<close> is the member as
  loaded at the start of the run, and no person id is written for it: its stored record after
  the run is the loaded record if the member was loaded without a (truthy) link, and the
  loaded record with the link cleared and \<open>updatedAt\<close> refreshed if it was loaded with a
  stale link (the unlink step precedes the creation attempt).
\<close>

theorem creation_failure_report:
  assumes "distinct (map member_id (store w))"
    and "POST api createMissing False w = (Inr r, w')"
    and "(m, msg) \<in> set (errors r)"
  shows "m \<in> set (store w) \<and>
         (case getMember (store w') (member_id m) of
            Some x \<Rightarrow> healedAs m x \<and> \<not> truthyNum (doorflowPersonId x)
          | None \<Rightarrow> False)"
proof -
  have "Failed m msg \<in> entries r"
    using assms(3) by (force simp: entries_def)
  then have s: "stored (store w') (Failed m msg)"
    using POST_stored[OF assms(1,2)] by blast
  have "m \<in> set (store w)"
  proof (cases "listPeople api (remote w)")
    case (Inl err)
    then show ?thesis using assms(2) by (simp add: POST_failure)
  next
    case (Inr people)
    have "r = fst (syncLoop api people (peopleByEmailOf people) (teamToGroupMapOf (teamStore w))
                     createMissing False (store w)
                     (emptyResult, w\<lparr>calls := calls w @ [ListPeople]\<rparr>))"
      using assms(2) POST_result[OF Inr, of createMissing False] by simp
    then have "fst ` set (errors r) \<subseteq> set (store w)"
      using syncLoop_errors_members[of api people "peopleByEmailOf people"
          "teamToGroupMapOf (teamStore w)" createMissing False "store w"
          "(emptyResult, w\<lparr>calls := calls w @ [ListPeople]\<rparr>)"]
      by (simp add: emptyResult_def)
    then show ?thesis using assms(3) by force
  qed
  then show ?thesis
    using s healedAs_link[of m] by (auto split: option.splits)
qed

theorem creation_failure_report_witness:
  "distinct (map member_id (store (mkWorld [staleA, memberB] [teamT1] []))) \<and>
   POST (fakeApi [''a'', ''b''] []) True False (mkWorld [staleA, memberB] [teamT1] []) =
     (Inr (emptyResult\<lparr>errors := [(staleA, ''remote error''), (memberB, ''remote error'')]\<rparr>),
      (mkWorld [staleA\<lparr>doorflowPersonId := None, updatedAt := stamp 0\<rparr>, memberB] [teamT1] [])
        \<lparr>clock := 1,
         calls := [ListPeople, CreatePerson (createInput staleA [5] None),
                   CreatePerson (createInput memberB [] None)]\<rparr>) \<and>
   healedAs staleA (staleA\<lparr>doorflowPersonId := None, updatedAt := stamp 0\<rparr>) \<and>
   healedAs memberB memberB"
proof -
  let ?w = "mkWorld [staleA, memberB] [teamT1] []"
  let ?r = "emptyResult\<lparr>errors := [(staleA, ''remote error''), (memberB, ''remote error'')]\<rparr>"
  let ?w' = "(mkWorld [staleA\<lparr>doorflowPersonId := None, updatedAt := stamp 0\<rparr>, memberB] [teamT1] [])
        \<lparr>clock := 1,
         calls := [ListPeople, CreatePerson (createInput staleA [5] None),
                   CreatePerson (createInput memberB [] None)]\<rparr>"
  have d: "distinct (map member_id (store ?w))"
    by (simp add: example_defs staleA_def)
  have run: "POST (fakeApi [''a'', ''b''] []) True False ?w = (Inr ?r, ?w')"
    by (simp add: route_defs example_defs staleA_def)
  have a: "(staleA, ''remote error'') \<in> set (errors ?r)" by simp
  have b: "(memberB, ''remote error'') \<in> set (errors ?r)" by simp
  have ga: "getMember (store ?w') (member_id staleA) =
              Some (staleA\<lparr>doorflowPersonId := None, updatedAt := stamp 0\<rparr>)"
    by (simp add: getMember_def example_defs staleA_def)
  have gb: "getMember (store ?w') (member_id memberB) = Some memberB"
    by (simp add: getMember_def example_defs staleA_def)
  from creation_failure_report[OF d run a] ga
  have "healedAs staleA (staleA\<lparr>doorflowPersonId := None, updatedAt := stamp 0\<rparr>)" by simp
  moreover from creation_failure_report[OF d run b] gb
  have "healedAs memberB memberB" by simp
  ultimately show ?thesis using d run by simp
qed

text \<open>
  The claim C10 as stated, that the stored record of such a member is left unchanged by the
  run, fails for a member loaded with a stale link whose creation fails: the run has cleared
  the stored link.
\<close>

theorem creation_failure_stale_counterexample:
  "store (mkWorld [staleA] [teamT1] []) = [staleA] \<and>
   fst (POST (fakeApi [''a''] []) True False (mkWorld [staleA] [teamT1] [])) =
     Inr (emptyResult\<lparr>errors := [(staleA, ''remote error'')]\<rparr>) \<and>
   store (snd (POST (fakeApi [''a''] []) True False (mkWorld [staleA] [teamT1] []))) =
     [staleA\<lparr>doorflowPersonId := None, updatedAt := stamp 0\<rparr>] \<and>
   staleA\<lparr>doorflowPersonId := None, updatedAt := stamp 0\<rparr> \<noteq> staleA"
  by (simp add: route_defs example_defs staleA_def)





end
